theory Spec2Isabelle
  imports Complex_Main "HOL-Library.AList"
begin

section \<open>Python strings\<close>

text \<open>
  A Python \<open>str\<close> is modelled as a \<open>string\<close> whose characters are the code points
  U+0000 to U+00FF. \<open>str.lower\<close> and \<open>str.strip\<close> are written out for this range:
  the upper-case letters are A to Z and U+00C0 to U+00DE without the multiplication sign
  U+00D7, each 32 below its lower-case letter; the white-space characters are U+0009 to
  U+000D, U+001C to U+0020, U+0085 and U+00A0.
\<close>

definition py_lower_char :: "char \<Rightarrow> char" where
  "py_lower_char c =
     (let n = (of_char c :: nat)
      in if (65 \<le> n \<and> n \<le> 90) \<or> (192 \<le> n \<and> n \<le> 222 \<and> n \<noteq> 215)
         then char_of (n + 32) else c)"

definition lower :: "string \<Rightarrow> string" where
  "lower s = map py_lower_char s"

definition py_isspace :: "char \<Rightarrow> bool" where
  "py_isspace c =
     (let n = (of_char c :: nat)
      in (9 \<le> n \<and> n \<le> 13) \<or> (28 \<le> n \<and> n \<le> 32) \<or> n = 133 \<or> n = 160)"

definition strip :: "string \<Rightarrow> string" where
  "strip s = rev (dropWhile py_isspace (rev (dropWhile py_isspace s)))"

text \<open>\<open>str(n)\<close> for a Python integer: the decimal digits, with a minus sign below zero.\<close>

definition digit_char :: "nat \<Rightarrow> char" where
  "digit_char d = char_of (48 + d)"

function str_nat :: "nat \<Rightarrow> string" where
  "str_nat n = (if n < 10 then [digit_char n] else str_nat (n div 10) @ [digit_char (n mod 10)])"
  by pat_completeness auto
termination
  by (relation "measure (\<lambda>n. n)") auto

declare str_nat.simps [simp del]

definition str_int :: "int \<Rightarrow> string" where
  "str_int i = (if i < 0 then CHR ''-'' # str_nat (nat (- i)) else str_nat (nat i))"

section \<open>Conflict resolver (conflict_resolution.py)\<close>

type_synonym fact = "string \<times> string \<times> string"

record ConflictRecord =
  timestamp :: string
  old_fact :: fact
  new_fact :: fact
  old_hash_id :: string
  new_hash_id :: string
  old_access_count :: int
  new_access_count :: int
  resolution_strategy :: string
  resolution_result :: string
  cr_notes :: "string option"

record ConflictResolver =
  default_strategy :: string
  enable_audit_log :: bool
  audit_log_file :: "string option"
  conflict_history :: "ConflictRecord list"

text \<open>\<open>ConflictResolver.__init__\<close> with its default arguments made explicit.\<close>

definition ConflictResolver_init :: "string \<Rightarrow> bool \<Rightarrow> string option \<Rightarrow> ConflictResolver" where
  "ConflictResolver_init strategy audit file =
     \<lparr>default_strategy = strategy, enable_audit_log = audit, audit_log_file = file,
      conflict_history = []\<rparr>"

text \<open>
  \<open>normalize_fact\<close> builds a new tuple from the three elements, each lower-cased and then
  stripped. The argument is a Python tuple of strings, which cannot be written to.
\<close>

definition normalize_fact :: "fact \<Rightarrow> fact" where
  "normalize_fact f =
     (case f of (s, p, ob) \<Rightarrow> (strip (lower s), strip (lower p), strip (lower ob)))"

text \<open>The condition of the \<open>if\<close> in the inner loop, on two facts as they are stored.\<close>

definition in_conflict :: "fact \<Rightarrow> fact \<Rightarrow> bool" where
  "in_conflict exist_fact new_f =
     (case normalize_fact new_f of (new_subj, new_pred, new_obj) \<Rightarrow>
      case normalize_fact exist_fact of (exist_subj, exist_pred, exist_obj) \<Rightarrow>
        new_subj = exist_subj \<and> new_pred = exist_pred \<and> new_obj \<noteq> exist_obj)"

text \<open>
  \<open>detect_conflicts\<close>. The two lists are passed by reference and each loop reads its list
  by position while it runs, as a Python list iterator does. The state of the loops is the
  triple of \<open>existing_facts\<close>, \<open>new_facts\<close> and \<open>conflicts\<close>; the result of the call
  is that triple at the end: the two lists as the call leaves them and the list it
  returns. The normalized triples are local values of one iteration.
\<close>

function detect_inner :: "fact \<Rightarrow> nat \<Rightarrow> nat \<Rightarrow> fact list \<times> fact list \<times> (nat \<times> nat) list
    \<Rightarrow> fact list \<times> fact list \<times> (nat \<times> nat) list" where
  "detect_inner new_norm new_idx exist_idx (existing_facts, new_facts, conflicts) =
     (if exist_idx < length existing_facts then
        (case new_norm of (new_subj, new_pred, new_obj) \<Rightarrow>
         case normalize_fact (existing_facts ! exist_idx) of (exist_subj, exist_pred, exist_obj) \<Rightarrow>
           detect_inner new_norm new_idx (Suc exist_idx)
             (existing_facts, new_facts,
              if new_subj = exist_subj \<and> new_pred = exist_pred \<and> new_obj \<noteq> exist_obj
              then conflicts @ [(exist_idx, new_idx)] else conflicts))
      else (existing_facts, new_facts, conflicts))"
  by pat_completeness auto
termination
  by (relation "measure (\<lambda>(new_norm, new_idx, exist_idx, existing_facts, new_facts, conflicts).
                           length existing_facts - exist_idx)") auto

declare detect_inner.simps [simp del]

lemma detect_inner_step:
  "exist_idx < length existing_facts \<Longrightarrow>
   detect_inner (normalize_fact nf) new_idx exist_idx (existing_facts, new_facts, conflicts) =
     detect_inner (normalize_fact nf) new_idx (Suc exist_idx)
       (existing_facts, new_facts,
        if in_conflict (existing_facts ! exist_idx) nf
        then conflicts @ [(exist_idx, new_idx)] else conflicts)"
  by (subst detect_inner.simps)
     (cases "normalize_fact nf"; cases "normalize_fact (existing_facts ! exist_idx)";
      simp add: in_conflict_def)

lemma detect_inner_list:
  "detect_inner (normalize_fact nf) new_idx exist_idx (existing_facts, new_facts, conflicts) =
     (existing_facts, new_facts,
      conflicts @ map (\<lambda>i. (i, new_idx))
        (filter (\<lambda>i. in_conflict (existing_facts ! i) nf) [exist_idx..<length existing_facts]))"
proof (induction "length existing_facts - exist_idx" arbitrary: exist_idx conflicts)
  case 0
  then have "\<not> exist_idx < length existing_facts" by simp
  then show ?case by (subst detect_inner.simps) simp
next
  case (Suc n)
  then have lt: "exist_idx < length existing_facts" and n: "n = length existing_facts - Suc exist_idx"
    by simp_all
  have range: "[exist_idx..<length existing_facts] = exist_idx # [Suc exist_idx..<length existing_facts]"
    using lt by (rule upt_conv_Cons)
  show ?case
    unfolding detect_inner_step [OF lt] Suc.hyps(1) [OF n] range by simp
qed

function detect_outer :: "nat \<Rightarrow> fact list \<times> fact list \<times> (nat \<times> nat) list
    \<Rightarrow> fact list \<times> fact list \<times> (nat \<times> nat) list" where
  "detect_outer new_idx (existing_facts, new_facts, conflicts) =
     (if new_idx < length new_facts then
        detect_outer (Suc new_idx)
          (detect_inner (normalize_fact (new_facts ! new_idx)) new_idx 0
             (existing_facts, new_facts, conflicts))
      else (existing_facts, new_facts, conflicts))"
  by pat_completeness auto
termination
  by (relation "measure (\<lambda>(new_idx, existing_facts, new_facts, conflicts).
                           length new_facts - new_idx)")
     (auto simp: detect_inner_list)

declare detect_outer.simps [simp del]

definition detect_conflicts :: "fact list \<Rightarrow> fact list
    \<Rightarrow> fact list \<times> fact list \<times> (nat \<times> nat) list" where
  "detect_conflicts existing_facts new_facts = detect_outer 0 (existing_facts, new_facts, [])"

text \<open>
  The specification names case-folding where the code calls \<open>str.lower\<close>. On the code
  points U+0000 to U+00FF Python's \<open>str.casefold\<close> is \<open>str.lower\<close> except for the sharp s
  U+00DF, which becomes \<open>ss\<close>, and the micro sign U+00B5, which becomes the Greek letter
  U+03BC; the result is given as a list of code points.
\<close>

definition spec_casefold_char :: "char \<Rightarrow> nat list" where
  "spec_casefold_char c =
     (let n = (of_char c :: nat)
      in if n = 223 then [115, 115] else if n = 181 then [956]
         else [of_char (py_lower_char c)])"

definition spec_casefold :: "string \<Rightarrow> nat list" where
  "spec_casefold s = concat (map spec_casefold_char s)"

text \<open>
  \<open>resolve_conflict\<close>. The time stamp \<open>datetime.now().isoformat()\<close> is the argument
  \<open>now\<close>; \<open>strategy\<close> is \<open>None\<close> when the caller leaves it out. The function has no
  \<open>raise\<close> statement and its chain of \<open>if\<close>/\<open>elif\<close> has no \<open>else\<close>: it returns the
  record and the resolver with the record appended to its history.
\<close>

definition resolve_conflict ::
  "ConflictResolver \<Rightarrow> fact \<Rightarrow> fact \<Rightarrow> string \<Rightarrow> string \<Rightarrow> int \<Rightarrow> int \<Rightarrow> string option \<Rightarrow> string
     \<Rightarrow> ConflictRecord \<times> ConflictResolver" where
  "resolve_conflict self old_f new_f old_id new_id old_count new_count strategy_arg now =
     (let strategy = (case strategy_arg of None \<Rightarrow> default_strategy self | Some s \<Rightarrow> s);
          record0 = \<lparr>timestamp = now, old_fact = old_f, new_fact = new_f,
                     old_hash_id = old_id, new_hash_id = new_id,
                     old_access_count = old_count, new_access_count = new_count,
                     resolution_strategy = strategy, resolution_result = [],
                     cr_notes = None\<rparr>;
          record1 =
            (if strategy = ''keep_new'' then
               record0\<lparr>resolution_result := snd (snd new_f),
                 cr_notes := Some ''New fact replaces old fact (recent information is prioritized)''\<rparr>
             else if strategy = ''keep_old'' then
               record0\<lparr>resolution_result := snd (snd old_f),
                 cr_notes := Some ''Old fact retained, new fact rejected (stability prioritized)''\<rparr>
             else if strategy = ''merge'' then
               record0\<lparr>resolution_result := ''('' @ snd (snd old_f) @ '' or '' @ snd (snd new_f) @ '')'',
                 cr_notes := Some ''Facts merged into uncertain knowledge (both possibilities preserved)''\<rparr>
             else if strategy = ''keep_frequent'' then
               (if old_count \<ge> new_count then
                  record0\<lparr>resolution_result := snd (snd old_f),
                    cr_notes := Some (''Old fact retained (more frequently accessed: '' @ str_int old_count
                                   @ '' vs '' @ str_int new_count @ '')'')\<rparr>
                else
                  record0\<lparr>resolution_result := snd (snd new_f),
                    cr_notes := Some (''New fact adopted (more frequently accessed: '' @ str_int new_count
                                   @ '' vs '' @ str_int old_count @ '')'')\<rparr>)
             else record0)
      in (record1, self\<lparr>conflict_history := conflict_history self @ [record1]\<rparr>))"

section \<open>Values shared by the store and the activation engine\<close>

text \<open>
  A \<open>datetime\<close> is modelled as its seconds on the real line; an ISO time stamp stands
  for the datetime it prints, so that \<open>isoformat\<close> and \<open>fromisoformat\<close> are the
  identity. An embedding is a numpy array of one dimension or a plain Python list: the code
  tells the two apart with \<open>isinstance\<close>.
\<close>

type_synonym datetime = real

datatype embedding = NdArray "real list" | PyList "real list"

datatype error = KeyError string | IndexError | ValueError | AttributeError | ZeroDivisionError

record AccessEvent =
  event_timestamp :: datetime
  query :: "string option"
  ranking_position :: int
  similarity_score :: "real option"
  computed_similarity :: "real option"

text \<open>
  A double is modelled by the real number it denotes; infinities and NaN are left out. The
  code computes with Python floats and with numpy, whose results are rounded. The
  model fixes nothing about the rounding: the operations on doubles are the parameter
  \<open>fp\<close> of every function that computes with them. \<open>fadd\<close>, \<open>fmul\<close> and \<open>fdiv\<close>
  are \<open>+\<close>, \<open>*\<close> and \<open>/\<close> (the division also where both operands are integers),
  \<open>np_dot\<close>, \<open>np_norm\<close> and \<open>np_exp\<close> are \<open>np.dot\<close>, \<open>np.linalg.norm\<close> and
  \<open>np.exp\<close>.
\<close>

record float_ops =
  fadd :: "real \<Rightarrow> real \<Rightarrow> real"
  fmul :: "real \<Rightarrow> real \<Rightarrow> real"
  fdiv :: "real \<Rightarrow> real \<Rightarrow> real"
  np_dot :: "real list \<Rightarrow> real list \<Rightarrow> real"
  np_norm :: "real list \<Rightarrow> real"
  np_exp :: "real \<Rightarrow> real"


text \<open>The operations without rounding; the examples are evaluated with them.\<close>

definition exact_dot :: "real list \<Rightarrow> real list \<Rightarrow> real" where
  "exact_dot u v = sum_list (map (\<lambda>(x, y). x * y) (zip u v))"

definition exact_norm :: "real list \<Rightarrow> real" where
  "exact_norm v = sqrt (sum_list (map (\<lambda>x. x * x) v))"

definition exact_floats :: float_ops where
  "exact_floats =
     \<lparr>fadd = (\<lambda>a b. a + b), fmul = (\<lambda>a b. a * b), fdiv = (\<lambda>a b. a / b),
      np_dot = exact_dot, np_norm = exact_norm, np_exp = exp\<rparr>"

text \<open>
  A dict comprehension over a list of key/value pairs: a later pair replaces an earlier one
  with the same key.
\<close>

definition dict_of :: "('k \<times> 'v) list \<Rightarrow> ('k \<rightharpoonup> 'v)" where
  "dict_of kvs = map_of (rev kvs)"

text \<open>\<open>list.pop(idx)\<close> for an index inside the list.\<close>

definition list_pop :: "nat \<Rightarrow> 'a list \<Rightarrow> 'a list" where
  "list_pop idx xs = take idx xs @ drop (Suc idx) xs"

section \<open>Vector record store (embedding_store.py)\<close>

text \<open>
  The store keeps three parallel lists and the dictionaries derived from them.
  \<open>hash_id_to_text\<close> and \<open>text_to_hash_id\<close> are attributes that a store started without
  a file does not have before its first save (\<open>None\<close> here). \<open>parquet_file\<close> and
  \<open>access_history_file\<close> are the contents of the two files, \<open>None\<close> while a file does
  not exist.
\<close>

record EmbeddingStore =
  namespace :: string
  hash_ids :: "string list"
  texts :: "string list"
  embeddings :: "embedding list"
  hash_id_to_idx :: "string \<rightharpoonup> nat"
  hash_id_to_row :: "string \<rightharpoonup> string \<times> string"
  hash_id_to_text :: "(string \<rightharpoonup> string) option"
  text_to_hash_id :: "(string \<rightharpoonup> string) option"
  access_history :: "string \<rightharpoonup> AccessEvent list"
  parquet_file :: "(string list \<times> string list \<times> embedding list) option"
  access_history_file :: "(string \<rightharpoonup> AccessEvent list) option"

text \<open>\<open>__init__\<close> and \<open>_load_data\<close> in a directory that holds neither file.\<close>

definition EmbeddingStore_init :: "string \<Rightarrow> EmbeddingStore" where
  "EmbeddingStore_init ns =
     \<lparr>namespace = ns, hash_ids = [], texts = [], embeddings = [],
      hash_id_to_idx = Map.empty, hash_id_to_row = Map.empty,
      hash_id_to_text = None, text_to_hash_id = None,
      access_history = Map.empty, parquet_file = None, access_history_file = None\<rparr>"

text \<open>
  \<open>_save_data\<close>. Building the data frame raises a \<open>ValueError\<close> when the three lists
  differ in length, before anything is written or rebuilt. A mutating operation returns the
  store as the call leaves it together with the exception raised, if any.
\<close>

definition save_data :: "EmbeddingStore \<Rightarrow> EmbeddingStore \<times> error option" where
  "save_data self =
     (if length (texts self) \<noteq> length (hash_ids self)
         \<or> length (embeddings self) \<noteq> length (hash_ids self)
      then (self, Some ValueError)
      else (self\<lparr>parquet_file := Some (hash_ids self, texts self, embeddings self),
                  hash_id_to_row := dict_of (zip (hash_ids self) (zip (hash_ids self) (texts self))),
                  hash_id_to_idx := dict_of (zip (hash_ids self) [0..<length (hash_ids self)]),
                  hash_id_to_text := Some (dict_of (zip (hash_ids self) (texts self))),
                  text_to_hash_id := Some (dict_of (zip (texts self) (hash_ids self))),
                  access_history_file := Some (access_history self)\<rparr>, None))"

definition upsert :: "EmbeddingStore \<Rightarrow> string list \<Rightarrow> string list \<Rightarrow> embedding list
    \<Rightarrow> EmbeddingStore \<times> error option" where
  "upsert self ids ts es =
     save_data (self\<lparr>embeddings := embeddings self @ es,
                      hash_ids := hash_ids self @ ids,
                      texts := texts self @ ts\<rparr>)"

text \<open>
  \<open>insert_strings\<close>. \<open>compute_mdhash_id\<close> (of \<open>utils.misc_utils\<close>) and the embedding
  model's \<open>batch_encode\<close> are parameters. \<open>nodes_dict\<close> is an insertion-ordered dictionary
  from identifier to content: assigning to a key it has keeps the key's place. The second
  component of the result lists the batches handed to \<open>batch_encode\<close>.
\<close>

fun nodes_dict_of :: "(string \<Rightarrow> string \<Rightarrow> string) \<Rightarrow> string \<Rightarrow> string list
    \<Rightarrow> (string \<times> string) list \<Rightarrow> (string \<times> string) list" where
  "nodes_dict_of compute_mdhash_id prefix [] nodes_dict = nodes_dict"
| "nodes_dict_of compute_mdhash_id prefix (text # rest) nodes_dict =
     nodes_dict_of compute_mdhash_id prefix rest
       (AList.update (compute_mdhash_id text prefix) text nodes_dict)"

definition insert_strings :: "(string \<Rightarrow> string \<Rightarrow> string) \<Rightarrow> (string list \<Rightarrow> embedding list)
    \<Rightarrow> EmbeddingStore \<Rightarrow> string list \<Rightarrow> EmbeddingStore \<times> string list list \<times> error option" where
  "insert_strings compute_mdhash_id batch_encode self txts =
     (let nodes_dict = nodes_dict_of compute_mdhash_id (namespace self @ ''-'') txts [];
          all_hash_ids = map fst nodes_dict
      in if all_hash_ids = [] then (self, [], None)
         else
           let missing_ids = filter (\<lambda>hash_id. hash_id_to_row self hash_id = None) all_hash_ids
           in if missing_ids = [] then (self, [], None)
              else
                let texts_to_encode = map (\<lambda>hash_id. the (map_of nodes_dict hash_id)) missing_ids;
                    missing_embeddings = batch_encode texts_to_encode;
                    (self', exc) = upsert self missing_ids texts_to_encode missing_embeddings
                in (self', [texts_to_encode], exc))"

text \<open>
  \<open>delete\<close>. The first loop looks every requested identifier up and raises a
  \<open>KeyError\<close> at the first unknown one; \<open>np.sort(indices)[::-1]\<close> is the list of indices
  in descending order, repeated indices included; the second loop pops each index from the
  three lists in turn, and a pop beyond the end of a list raises an \<open>IndexError\<close>.
\<close>

fun lookup_indices :: "(string \<rightharpoonup> nat) \<Rightarrow> string list \<Rightarrow> error + nat list" where
  "lookup_indices m [] = Inr []"
| "lookup_indices m (h # rest) =
     (case m h of
        None \<Rightarrow> Inl (KeyError h)
      | Some idx \<Rightarrow> (case lookup_indices m rest of Inl e \<Rightarrow> Inl e | Inr idxs \<Rightarrow> Inr (idx # idxs)))"

fun delete_loop :: "EmbeddingStore \<Rightarrow> nat list \<Rightarrow> EmbeddingStore \<times> error option" where
  "delete_loop self [] = (self, None)"
| "delete_loop self (idx # rest) =
     (if idx \<ge> length (hash_ids self) then (self, Some IndexError)
      else
        let hash_id = hash_ids self ! idx;
            s1 = self\<lparr>hash_ids := list_pop idx (hash_ids self)\<rparr>
        in if idx \<ge> length (texts s1) then (s1, Some IndexError)
           else
             let s2 = s1\<lparr>texts := list_pop idx (texts s1)\<rparr>
             in if idx \<ge> length (embeddings s2) then (s2, Some IndexError)
                else
                  let s3 = s2\<lparr>embeddings := list_pop idx (embeddings s2)\<rparr>;
                      s4 = s3\<lparr>access_history := (access_history s3)(hash_id := None)\<rparr>
                  in delete_loop s4 rest)"

definition delete :: "EmbeddingStore \<Rightarrow> string list \<Rightarrow> EmbeddingStore \<times> error option" where
  "delete self ids =
     (case lookup_indices (hash_id_to_idx self) ids of
        Inl e \<Rightarrow> (self, Some e)
      | Inr indices \<Rightarrow>
          (case delete_loop self (rev (sort indices)) of
             (self', Some e) \<Rightarrow> (self', Some e)
           | (self', None) \<Rightarrow> save_data self'))"

definition get_all_ids :: "EmbeddingStore \<Rightarrow> string list" where
  "get_all_ids self = hash_ids self"

text \<open>
  \<open>get_embedding\<close>: the dictionary lookup raises a \<open>KeyError\<close> for an unknown
  identifier, the list index an \<open>IndexError\<close>, and \<open>astype\<close> exists on arrays only.
\<close>

definition get_embedding :: "EmbeddingStore \<Rightarrow> string \<Rightarrow> error + embedding" where
  "get_embedding self hash_id =
     (case hash_id_to_idx self hash_id of
        None \<Rightarrow> Inl (KeyError hash_id)
      | Some idx \<Rightarrow>
          if idx \<ge> length (embeddings self) then Inl IndexError
          else (case embeddings self ! idx of
                  NdArray v \<Rightarrow> Inr (NdArray v)
                | PyList v \<Rightarrow> Inl AttributeError))"

text \<open>The three read projections of the access log: \<open>dict.get\<close> with the default \<open>[]\<close>.\<close>

definition get_access_history :: "EmbeddingStore \<Rightarrow> string \<Rightarrow> AccessEvent list" where
  "get_access_history self hash_id =
     (case access_history self hash_id of None \<Rightarrow> [] | Some events \<Rightarrow> events)"

definition get_access_count :: "EmbeddingStore \<Rightarrow> string \<Rightarrow> nat" where
  "get_access_count self hash_id =
     length (case access_history self hash_id of None \<Rightarrow> [] | Some events \<Rightarrow> events)"

definition get_last_access_time :: "EmbeddingStore \<Rightarrow> string \<Rightarrow> datetime option" where
  "get_last_access_time self hash_id =
     (let history = (case access_history self hash_id of None \<Rightarrow> [] | Some events \<Rightarrow> events)
      in if history \<noteq> [] then Some (event_timestamp (last history)) else None)"

text \<open>
  \<open>record_access\<close>. The list of events of a new identifier is created first, so an
  exception raised while the similarity is computed leaves an empty list behind.
  \<open>np.dot\<close> raises a \<open>ValueError\<close> for two vectors of different lengths.
\<close>

fun values_of :: "embedding \<Rightarrow> real list" where
  "values_of (NdArray v) = v"
| "values_of (PyList v) = v"

definition record_access :: "float_ops \<Rightarrow> EmbeddingStore \<Rightarrow> string \<Rightarrow> string option \<Rightarrow> embedding option \<Rightarrow> int
    \<Rightarrow> real option \<Rightarrow> datetime \<Rightarrow> EmbeddingStore \<times> error option" where
  "record_access fp self hash_id q query_embedding rank score now =
     (let s1 = (if access_history self hash_id = None
                then self\<lparr>access_history := (access_history self)(hash_id \<mapsto> [])\<rparr> else self);
          event = \<lparr>event_timestamp = now, query = q, ranking_position = rank,
                   similarity_score = score, computed_similarity = None\<rparr>;
          append = (\<lambda>ev. (s1\<lparr>access_history := (access_history s1)
                       (hash_id \<mapsto> (case access_history s1 hash_id of None \<Rightarrow> [] | Some evs \<Rightarrow> evs) @ [ev])\<rparr>,
                     None))
      in case (query_embedding, hash_id_to_idx self hash_id) of
           (Some qe, Some idx) \<Rightarrow>
             if idx \<ge> length (embeddings self) then (s1, Some IndexError)
             else (case embeddings self ! idx of
                     NdArray mv \<Rightarrow>
                       if length (values_of qe) \<noteq> length mv then (s1, Some ValueError)
                       else append (event\<lparr>computed_similarity :=
                              Some (fdiv fp (np_dot fp (values_of qe) mv)
                                      (fadd fp (fmul fp (np_norm fp (values_of qe)) (np_norm fp mv))
                                         (1 / 10 ^ 10)))\<rparr>)
                   | PyList mv \<Rightarrow> append event)
         | _ \<Rightarrow> append event)"

text \<open>
  The store invariant: the three lists have one length, the identifiers are pairwise
  different, and the two dictionaries that \<open>insert_strings\<close>, \<open>delete\<close> and
  \<open>get_embedding\<close> read are the ones \<open>_save_data\<close> builds from the lists.
\<close>

definition store_inv :: "EmbeddingStore \<Rightarrow> bool" where
  "store_inv self \<longleftrightarrow>
     length (texts self) = length (hash_ids self) \<and>
     length (embeddings self) = length (hash_ids self) \<and>
     distinct (hash_ids self) \<and>
     hash_id_to_idx self = dict_of (zip (hash_ids self) [0..<length (hash_ids self)]) \<and>
     hash_id_to_row self = dict_of (zip (hash_ids self) (zip (hash_ids self) (texts self)))"

section \<open>Activation engine (context_aware_memory.py)\<close>

record ContextEvent =
  ctx_timestamp :: datetime
  ctx_query :: string
  ctx_embedding :: embedding

record ContextAwareMemoryManager =
  context_window_size :: int
  recency_weight :: real
  frequency_weight :: real
  relevance_weight :: real
  relevance_threshold :: real
  decay_rate :: real
  query_history :: "ContextEvent list"

text \<open>
  \<open>__init__\<close>, with the arguments in the order of its signature. The three weights are
  divided by their sum, which raises a \<open>ZeroDivisionError\<close> when the sum is zero.
\<close>

definition ContextAwareMemoryManager_init ::
  "float_ops \<Rightarrow> int \<Rightarrow> real \<Rightarrow> real \<Rightarrow> real \<Rightarrow> real \<Rightarrow> real
     \<Rightarrow> error + ContextAwareMemoryManager" where
  "ContextAwareMemoryManager_init fp window_size recency frequency relevance threshold rate =
     (let total_weight = fadd fp (fadd fp recency frequency) relevance
      in if total_weight = 0 then Inl ZeroDivisionError
         else Inr \<lparr>context_window_size = window_size,
                   recency_weight = fdiv fp recency total_weight,
                   frequency_weight = fdiv fp frequency total_weight,
                   relevance_weight = fdiv fp relevance total_weight,
                   relevance_threshold = threshold,
                   decay_rate = rate,
                   query_history = []\<rparr>)"

text \<open>
  \<open>add_query_context\<close>: the entry stores \<open>tolist()\<close> of an array and any other value as it
  is; after the append one entry is popped from the front when the list is longer than the
  window size. \<open>now\<close> is the value of \<open>datetime.now()\<close>.
\<close>

definition add_query_context ::
  "ContextAwareMemoryManager \<Rightarrow> string \<Rightarrow> embedding \<Rightarrow> datetime \<Rightarrow> ContextAwareMemoryManager" where
  "add_query_context self q query_embedding now =
     (let context_event = \<lparr>ctx_timestamp = now, ctx_query = q,
                            ctx_embedding = PyList (values_of query_embedding)\<rparr>;
          appended = query_history self @ [context_event]
      in if int (length appended) > context_window_size self
         then self\<lparr>query_history := tl appended\<rparr>
         else self\<lparr>query_history := appended\<rparr>)"

text \<open>
  \<open>_cosine_similarity\<close>: both norms are computed first and a zero norm returns 0 before
  \<open>np.dot\<close> is reached; \<open>np.dot\<close> raises a \<open>ValueError\<close> for vectors of different
  lengths.
\<close>

definition cosine_similarity :: "float_ops \<Rightarrow> real list \<Rightarrow> real list \<Rightarrow> error + real" where
  "cosine_similarity fp vec1 vec2 =
     (let norm1 = np_norm fp vec1; norm2 = np_norm fp vec2
      in if norm1 = 0 \<or> norm2 = 0 then Inr 0
         else if length vec1 \<noteq> length vec2 then Inl ValueError
         else Inr (fdiv fp (np_dot fp vec1 vec2) (fmul fp norm1 norm2)))"

fun count_relevant_contexts :: "AccessEvent list \<Rightarrow> real \<Rightarrow> nat" where
  "count_relevant_contexts [] threshold = 0"
| "count_relevant_contexts (event # rest) threshold =
     (case computed_similarity event of
        Some c \<Rightarrow> (if c \<ge> threshold then 1 else 0) + count_relevant_contexts rest threshold
      | None \<Rightarrow> count_relevant_contexts rest threshold)"

record ActivationScores =
  scores_hash_id :: string
  semantic_relevance :: real
  recency_bonus :: real
  context_frequency :: real
  total_activation :: real
  should_retain :: bool

text \<open>
  \<open>calculate_activation_score\<close>. \<open>current_time_arg\<close> is \<open>None\<close> when the caller leaves
  the time out, and \<open>now\<close> is what \<open>datetime.now()\<close> returns then. The difference of
  two datetimes is exact, and \<open>total_seconds()\<close> divides its microseconds by \<open>10**6\<close>.
\<close>

definition calculate_activation_score ::
  "float_ops \<Rightarrow> ContextAwareMemoryManager \<Rightarrow> string \<Rightarrow> AccessEvent list \<Rightarrow> embedding
     \<Rightarrow> embedding \<Rightarrow> datetime option \<Rightarrow> datetime \<Rightarrow> error + ActivationScores" where
  "calculate_activation_score fp self memory_hash_id history current_query_embedding memory_embedding
       current_time_arg now =
     (let current_time = (case current_time_arg of None \<Rightarrow> now | Some t \<Rightarrow> t);
          semantic =
            (case (current_query_embedding, memory_embedding) of
               (NdArray u, NdArray v) \<Rightarrow>
                 (case cosine_similarity fp u v of
                    Inl e \<Rightarrow> Inl e
                  | Inr semantic_sim \<Rightarrow> Inr (max 0 semantic_sim))
             | _ \<Rightarrow> Inr 0)
      in case semantic of
           Inl e \<Rightarrow> Inl e
         | Inr relevance \<Rightarrow>
             let recency =
                   (if history \<noteq> [] then
                      let last_access_time = event_timestamp (last history);
                          time_delta = current_time - last_access_time;
                          total_seconds = fdiv fp (time_delta * 10 ^ 6) (10 ^ 6);
                          days = fdiv fp total_seconds (24 * 3600)
                      in np_exp fp (fmul fp (- decay_rate self) days)
                    else 0);
                 frequency =
                   (if history \<noteq> [] then
                      min 1 (fdiv fp (real (count_relevant_contexts history (relevance_threshold self))) 5)
                    else 0);
                 total = fadd fp (fadd fp (fmul fp (relevance_weight self) relevance)
                                          (fmul fp (recency_weight self) recency))
                                 (fmul fp (frequency_weight self) frequency)
             in Inr \<lparr>scores_hash_id = memory_hash_id,
                      semantic_relevance = relevance,
                      recency_bonus = recency,
                      context_frequency = frequency,
                      total_activation = total,
                      should_retain = (total \<ge> 5 / 100 \<or> length history = 0)\<rparr>)"

text \<open>
  \<open>calculate_batch_activation\<close>: one pass over \<open>get_all_ids()\<close>. Each call of
  \<open>calculate_activation_score\<close> reads the clock itself; \<open>clock k\<close> is the time read in
  iteration \<open>k\<close>. \<open>all_activation_scores\<close> is an insertion-ordered dictionary.
\<close>

fun batch_loop :: "float_ops \<Rightarrow> ContextAwareMemoryManager \<Rightarrow> EmbeddingStore \<Rightarrow> embedding \<Rightarrow> (nat \<Rightarrow> datetime)
    \<Rightarrow> nat \<Rightarrow> string list \<Rightarrow> (string \<times> ActivationScores) list
    \<Rightarrow> error + (string \<times> ActivationScores) list" where
  "batch_loop fp self store q clock k [] all_activation_scores = Inr all_activation_scores"
| "batch_loop fp self store q clock k (h # rest) all_activation_scores =
     (case get_embedding store h of
        Inl e \<Rightarrow> Inl e
      | Inr memory_embedding \<Rightarrow>
          (case calculate_activation_score fp self h (get_access_history store h) q memory_embedding
                  None (clock k) of
             Inl e \<Rightarrow> Inl e
           | Inr scores \<Rightarrow>
               batch_loop fp self store q clock (Suc k) rest (AList.update h scores all_activation_scores)))"

definition calculate_batch_activation ::
  "float_ops \<Rightarrow> ContextAwareMemoryManager \<Rightarrow> EmbeddingStore \<Rightarrow> embedding \<Rightarrow> (nat \<Rightarrow> datetime)
     \<Rightarrow> error + (string \<times> ActivationScores) list" where
  "calculate_batch_activation fp self store q clock = batch_loop fp self store q clock 0 (get_all_ids store) []"

text \<open>\<open>int(x)\<close> on a float truncates towards zero.\<close>

definition py_int :: "real \<Rightarrow> int" where
  "py_int x = (if x \<ge> 0 then \<lfloor>x\<rfloor> else \<lceil>x\<rceil>)"

text \<open>
  \<open>sorted(..., key=total_activation, reverse=True)\<close> is a stable sort in descending order:
  entries with equal keys keep their order.
\<close>

definition sorted_memories_of :: "(string \<times> ActivationScores) list \<Rightarrow> (string \<times> ActivationScores) list" where
  "sorted_memories_of all_scores = sort_key (\<lambda>x. - total_activation (snd x)) all_scores"

definition retain_count_of :: "float_ops \<Rightarrow> nat \<Rightarrow> real \<Rightarrow> int" where
  "retain_count_of fp total_count retention_ratio =
     max 1 (py_int (fmul fp (real total_count) retention_ratio))"

definition get_memories_to_forget ::
  "float_ops \<Rightarrow> ContextAwareMemoryManager \<Rightarrow> EmbeddingStore \<Rightarrow> embedding \<Rightarrow> real \<Rightarrow> (nat \<Rightarrow> datetime)
     \<Rightarrow> error + string list" where
  "get_memories_to_forget fp self store q retention_ratio clock =
     (case calculate_batch_activation fp self store q clock of
        Inl e \<Rightarrow> Inl e
      | Inr all_scores \<Rightarrow>
          let sorted_memories = sorted_memories_of all_scores;
              total_count = length sorted_memories;
              retain_count = retain_count_of fp total_count retention_ratio;
              to_forget = map fst (filter (\<lambda>x. should_retain (snd x) = False)
                                     (drop (nat retain_count) sorted_memories))
          in Inr to_forget)"

text \<open>
  \<open>export_state\<close> and \<open>load_state\<close>. The state is a dictionary: a key may be missing, and
  \<open>load_state\<close> reads every key with \<open>dict.get\<close> and a default. \<open>export_state\<close> copies
  the window; \<open>load_state\<close> installs the list it finds in the dictionary, whose contents at the
  time of the call are the field \<open>state_query_history\<close>.
\<close>

record EngineState =
  state_context_window_size :: "int option"
  state_recency_weight :: "real option"
  state_frequency_weight :: "real option"
  state_relevance_weight :: "real option"
  state_relevance_threshold :: "real option"
  state_decay_rate :: "real option"
  state_query_history :: "ContextEvent list option"

definition export_state :: "ContextAwareMemoryManager \<Rightarrow> EngineState" where
  "export_state self =
     \<lparr>state_context_window_size = Some (context_window_size self),
      state_recency_weight = Some (recency_weight self),
      state_frequency_weight = Some (frequency_weight self),
      state_relevance_weight = Some (relevance_weight self),
      state_relevance_threshold = Some (relevance_threshold self),
      state_decay_rate = Some (decay_rate self),
      state_query_history = Some (query_history self)\<rparr>"

definition load_state :: "ContextAwareMemoryManager \<Rightarrow> EngineState \<Rightarrow> ContextAwareMemoryManager" where
  "load_state self state =
     self\<lparr>context_window_size := (case state_context_window_size state of None \<Rightarrow> 10 | Some v \<Rightarrow> v),
          recency_weight := (case state_recency_weight state of None \<Rightarrow> 3 / 10 | Some v \<Rightarrow> v),
          frequency_weight := (case state_frequency_weight state of None \<Rightarrow> 2 / 10 | Some v \<Rightarrow> v),
          relevance_weight := (case state_relevance_weight state of None \<Rightarrow> 5 / 10 | Some v \<Rightarrow> v),
          relevance_threshold := (case state_relevance_threshold state of None \<Rightarrow> 3 / 10 | Some v \<Rightarrow> v),
          decay_rate := (case state_decay_rate state of None \<Rightarrow> 1 / 100 | Some v \<Rightarrow> v),
          query_history := (case state_query_history state of None \<Rightarrow> [] | Some v \<Rightarrow> v)\<rparr>"

text \<open>
  Sequences of the three engine operations on one engine. \<open>export_state\<close> returns a
  dictionary and leaves the engine as it is.
\<close>

datatype engine_op =
    AddQueryContext string embedding datetime
  | ExportState
  | LoadState EngineState

fun apply_op :: "ContextAwareMemoryManager \<Rightarrow> engine_op \<Rightarrow> ContextAwareMemoryManager" where
  "apply_op self (AddQueryContext q e now) = add_query_context self q e now"
| "apply_op self ExportState = self"
| "apply_op self (LoadState state) = load_state self state"

definition run_ops :: "ContextAwareMemoryManager \<Rightarrow> engine_op list \<Rightarrow> ContextAwareMemoryManager" where
  "run_ops self ops = foldl apply_op self ops"

text \<open>The window invariant, on an engine and on a state dictionary as \<open>load_state\<close> reads it.\<close>

definition window_ok :: "ContextAwareMemoryManager \<Rightarrow> bool" where
  "window_ok self \<longleftrightarrow> int (length (query_history self)) \<le> context_window_size self"

definition state_ok :: "EngineState \<Rightarrow> bool" where
  "state_ok state \<longleftrightarrow>
     int (length (case state_query_history state of None \<Rightarrow> [] | Some v \<Rightarrow> v))
       \<le> (case state_context_window_size state of None \<Rightarrow> 10 | Some v \<Rightarrow> v)"

fun loads_ok :: "engine_op list \<Rightarrow> bool" where
  "loads_ok [] = True"
| "loads_ok (LoadState state # ops) = (state_ok state \<and> loads_ok ops)"
| "loads_ok (_ # ops) = loads_ok ops"

section \<open>Example inputs\<close>

text \<open>
  A stand-in for \<open>compute_mdhash_id\<close> and one for \<open>batch_encode\<close>, and the stores that
  inserting one text and two texts into an empty store gives with them.
\<close>

definition example_hash :: "string \<Rightarrow> string \<Rightarrow> string" where
  "example_hash text prefix = prefix @ text"

definition example_encode :: "string list \<Rightarrow> embedding list" where
  "example_encode ts = map (\<lambda>t. NdArray [real (length t), 1]) ts"

definition one_record :: EmbeddingStore where
  "one_record =
     fst (insert_strings example_hash example_encode (EmbeddingStore_init ''chunk'') [''a''])"

definition two_records :: EmbeddingStore where
  "two_records =
     fst (insert_strings example_hash example_encode (EmbeddingStore_init ''chunk'') [''a'', ''b''])"

text \<open>
  The engine that the constructor builds from its default arguments, and a state dictionary
  whose window is longer than its window size.
\<close>

definition default_manager :: ContextAwareMemoryManager where
  "default_manager =
     \<lparr>context_window_size = 10, recency_weight = 3 / 10, frequency_weight = 2 / 10,
      relevance_weight = 5 / 10, relevance_threshold = 3 / 10, decay_rate = 1 / 100,
      query_history = []\<rparr>"

definition overlong_state :: EngineState where
  "overlong_state =
     \<lparr>state_context_window_size = Some 1,
      state_recency_weight = Some (3 / 10), state_frequency_weight = Some (2 / 10),
      state_relevance_weight = Some (5 / 10), state_relevance_threshold = Some (3 / 10),
      state_decay_rate = Some (1 / 100),
      state_query_history =
        Some [\<lparr>ctx_timestamp = 0, ctx_query = ''first'', ctx_embedding = PyList [1, 0]\<rparr>,
              \<lparr>ctx_timestamp = 1, ctx_query = ''second'', ctx_embedding = PyList [0, 1]\<rparr>]\<rparr>"


definition late_event :: AccessEvent where
  "late_event = \<lparr>event_timestamp = 8640000, query = Some ''Where is Erik Hort?'',
      ranking_position = 0, similarity_score = None, computed_similarity = None\<rparr>"


text \<open>
  A store of three records, each accessed once one hundred days after the epoch, the same
  store without the access to the third record, a clock that reads one thousand days
  later, and the scores these records get for a query orthogonal to their embeddings.
\<close>

definition late_clock :: "nat \<Rightarrow> datetime" where
  "late_clock k = 95040000"

definition three_accessed :: EmbeddingStore where
  "three_accessed =
     (let s0 = fst (insert_strings example_hash example_encode (EmbeddingStore_init ''chunk'')
                      [''a'', ''b'', ''c'']);
          s1 = fst (record_access exact_floats s0 ''chunk-a'' (Some ''Where is Erik Hort?'') None 0 None 8640000);
          s2 = fst (record_access exact_floats s1 ''chunk-b'' (Some ''Where is Erik Hort?'') None 0 None 8640000)
      in fst (record_access exact_floats s2 ''chunk-c'' (Some ''Where is Erik Hort?'') None 0 None 8640000))"

definition faded :: "string \<Rightarrow> ActivationScores" where
  "faded h = \<lparr>scores_hash_id = h, semantic_relevance = 0, recency_bonus = exp (- 10),
      context_frequency = 0, total_activation = 3 / 10 * exp (- 10), should_retain = False\<rparr>"

definition two_accessed :: EmbeddingStore where
  "two_accessed =
     (let s0 = fst (insert_strings example_hash example_encode (EmbeddingStore_init ''chunk'')
                      [''a'', ''b'', ''c'']);
          s1 = fst (record_access exact_floats s0 ''chunk-a'' (Some ''Where is Erik Hort?'') None 0 None 8640000)
      in fst (record_access exact_floats s1 ''chunk-b'' (Some ''Where is Erik Hort?'') None 0 None 8640000))"

definition unseen :: "string \<Rightarrow> ActivationScores" where
  "unseen h = \<lparr>scores_hash_id = h, semantic_relevance = 0, recency_bonus = 0,
      context_frequency = 0, total_activation = 0, should_retain = True\<rparr>"

section \<open>Conflict resolver: results\<close>

lemma detect_outer_list:
  "detect_outer new_idx (existing_facts, new_facts, conflicts) =
     (existing_facts, new_facts,
      conflicts @ concat (map (\<lambda>n. map (\<lambda>i. (i, n))
                                  (filter (\<lambda>i. in_conflict (existing_facts ! i) (new_facts ! n))
                                     [0..<length existing_facts]))
                            [new_idx..<length new_facts]))"
proof (induction "length new_facts - new_idx" arbitrary: new_idx conflicts)
  case 0
  then have "\<not> new_idx < length new_facts" by simp
  then show ?case by (subst detect_outer.simps) simp
next
  case (Suc n)
  then have lt: "new_idx < length new_facts" and n: "n = length new_facts - Suc new_idx"
    by simp_all
  have range: "[new_idx..<length new_facts] = new_idx # [Suc new_idx..<length new_facts]"
    using lt by (rule upt_conv_Cons)
  have step: "detect_outer new_idx (existing_facts, new_facts, conflicts) =
      detect_outer (Suc new_idx)
        (existing_facts, new_facts,
         conflicts @ map (\<lambda>i. (i, new_idx))
           (filter (\<lambda>i. in_conflict (existing_facts ! i) (new_facts ! new_idx))
              [0..<length existing_facts]))"
    using lt by (subst detect_outer.simps) (simp add: detect_inner_list)
  show ?case
    unfolding step Suc.hyps(1) [OF n] range by simp
qed

lemma detect_conflicts_list:
  "detect_conflicts existing_facts new_facts =
     (existing_facts, new_facts,
      concat (map (\<lambda>n. map (\<lambda>i. (i, n))
                          (filter (\<lambda>i. in_conflict (existing_facts ! i) (new_facts ! n))
                             [0..<length existing_facts]))
                [0..<length new_facts]))"
  by (simp add: detect_conflicts_def detect_outer_list)

lemma in_conflict_components:
  "in_conflict e n \<longleftrightarrow>
     strip (lower (fst e)) = strip (lower (fst n)) \<and>
     strip (lower (fst (snd e))) = strip (lower (fst (snd n))) \<and>
     strip (lower (snd (snd e))) \<noteq> strip (lower (snd (snd n)))"
  by (cases e; cases n) (auto simp: in_conflict_def normalize_fact_def)

lemma distinct_concat_pairs:
  "distinct ns \<Longrightarrow> distinct (concat (map (\<lambda>n. map (\<lambda>i. (i, n)) (filter (P n) [0..<m])) ns))"
  by (induction ns) (auto simp: distinct_map inj_on_def)

lemmas string_eval = lower_def py_lower_char_def strip_def py_isspace_def Let_def char_of_def bit_0

text \<open>
  C6, as the code has it. \<open>detect_conflicts(existing, new)\<close> leaves both lists and their
  triples as the caller passed them, and the list it returns holds exactly the index pairs
  \<open>(existing_index, new_index)\<close> of two facts whose subjects are equal and whose
  predicates are equal while their objects differ, each element compared after
  \<open>str.lower\<close> and then \<open>str.strip\<close>; it holds each such pair once.
\<close>

theorem detect_conflicts_exact:
  "fst (detect_conflicts existing new) = existing \<and>
   fst (snd (detect_conflicts existing new)) = new \<and>
   set (snd (snd (detect_conflicts existing new))) =
     {(i, j). i < length existing \<and> j < length new \<and>
        strip (lower (fst (existing ! i))) = strip (lower (fst (new ! j))) \<and>
        strip (lower (fst (snd (existing ! i)))) = strip (lower (fst (snd (new ! j)))) \<and>
        strip (lower (snd (snd (existing ! i)))) \<noteq> strip (lower (snd (snd (new ! j))))} \<and>
   distinct (snd (snd (detect_conflicts existing new)))"
proof -
  have "set (snd (snd (detect_conflicts existing new))) =
     {(i, j). i < length existing \<and> j < length new \<and>
        strip (lower (fst (existing ! i))) = strip (lower (fst (new ! j))) \<and>
        strip (lower (fst (snd (existing ! i)))) = strip (lower (fst (snd (new ! j)))) \<and>
        strip (lower (snd (snd (existing ! i)))) \<noteq> strip (lower (snd (snd (new ! j))))}"
    unfolding detect_conflicts_list by (auto simp: in_conflict_components)
  moreover have "distinct (snd (snd (detect_conflicts existing new)))"
    unfolding detect_conflicts_list snd_conv by (rule distinct_concat_pairs) simp
  ultimately show ?thesis by (simp add: detect_conflicts_list)
qed

text \<open>
  The theorem at facts that differ in case and in surrounding white space: the first
  existing fact conflicts with the new fact, the second has the same object after
  normalization, the third has another subject.
\<close>

theorem detect_conflicts_exact_witness:
  "detect_conflicts
      [(''  ERIK hort '', ''BirthPlace'', ''Montebello''),
       (''Erik Hort'', ''birthplace'', '' ROCKLAND County''),
       (''Montebello'', ''location'', ''New York'')]
      [(''Erik Hort'', ''birthplace'', ''Rockland County'')]
   = ([(''  ERIK hort '', ''BirthPlace'', ''Montebello''),
       (''Erik Hort'', ''birthplace'', '' ROCKLAND County''),
       (''Montebello'', ''location'', ''New York'')],
      [(''Erik Hort'', ''birthplace'', ''Rockland County'')],
      [(0, 0)]) \<and>
   strip (lower (''  ERIK hort '' @ [CHR 0x09, CHR 0x0A])) = ''erik hort'' \<and>
   normalize_fact (''  ERIK hort '', ''BirthPlace'', '' ROCKLAND County'')
     = (''erik hort'', ''birthplace'', ''rockland county'')"
proof -
  have e: "detect_conflicts
      [(''  ERIK hort '', ''BirthPlace'', ''Montebello''),
       (''Erik Hort'', ''birthplace'', '' ROCKLAND County''),
       (''Montebello'', ''location'', ''New York'')]
      [(''Erik Hort'', ''birthplace'', ''Rockland County'')]
   = ([(''  ERIK hort '', ''BirthPlace'', ''Montebello''),
       (''Erik Hort'', ''birthplace'', '' ROCKLAND County''),
       (''Montebello'', ''location'', ''New York'')],
      [(''Erik Hort'', ''birthplace'', ''Rockland County'')],
      [(0, 0)])"
    unfolding detect_conflicts_list
    by (simp add: in_conflict_components string_eval upt_rec)
  have n: "strip (lower (''  ERIK hort '' @ [CHR 0x09, CHR 0x0A])) = ''erik hort''"
    "normalize_fact (''  ERIK hort '', ''BirthPlace'', '' ROCKLAND County'')
     = (''erik hort'', ''birthplace'', ''rockland county'')"
    by (simp_all add: normalize_fact_def string_eval)
  show ?thesis
    using e n detect_conflicts_exact
      [of "[(''  ERIK hort '', ''BirthPlace'', ''Montebello''),
            (''Erik Hort'', ''birthplace'', '' ROCKLAND County''),
            (''Montebello'', ''location'', ''New York'')]"
          "[(''Erik Hort'', ''birthplace'', ''Rockland County'')]"]
    by simp
qed

text \<open>
  The claim as the specification states it fails for case-folding: the subjects
  \<open>STRASSE\<close> and \<open>stra\<close>, sharp s, \<open>e\<close> are equal after case-folding and the objects
  differ, but \<open>str.lower\<close> keeps the sharp s and no conflict is reported.
\<close>

theorem detect_conflicts_casefold_counterexample:
  "spec_casefold (strip ''STRASSE'') = spec_casefold (strip (''stra'' @ [CHR 0xDF] @ ''e'')) \<and>
   spec_casefold (strip ''street'') = spec_casefold (strip ''street'') \<and>
   spec_casefold (strip ''old'') \<noteq> spec_casefold (strip ''new'') \<and>
   snd (snd (detect_conflicts [(''STRASSE'', ''street'', ''old'')]
                               [(''stra'' @ [CHR 0xDF] @ ''e'', ''street'', ''new'')])) = []"
  unfolding detect_conflicts_list
  by (simp add: in_conflict_components string_eval spec_casefold_def spec_casefold_char_def)

text \<open>
  C1, as the code has it. With a strategy, given in the call or taken from the resolver's
  default, that is none of \<open>keep_new\<close>, \<open>keep_old\<close>, \<open>merge\<close> and
  \<open>keep_frequent\<close>, \<open>resolve_conflict\<close> raises nothing: it returns a
  record that carries the strategy string as given, an empty \<open>resolution_result\<close> and no
  notes, and appends that record to the history.
\<close>

theorem resolve_conflict_unrecognized:
  assumes "strategy = (case strategy_arg of None \<Rightarrow> default_strategy self | Some s \<Rightarrow> s)"
    and "strategy \<notin> {''keep_new'', ''keep_old'', ''merge'', ''keep_frequent''}"
  shows "resolve_conflict self old_f new_f old_id new_id old_count new_count strategy_arg now =
     (\<lparr>timestamp = now, old_fact = old_f, new_fact = new_f, old_hash_id = old_id,
       new_hash_id = new_id, old_access_count = old_count, new_access_count = new_count,
       resolution_strategy = strategy, resolution_result = [], cr_notes = None\<rparr>,
      self\<lparr>conflict_history := conflict_history self @
        [\<lparr>timestamp = now, old_fact = old_f, new_fact = new_f, old_hash_id = old_id,
          new_hash_id = new_id, old_access_count = old_count, new_access_count = new_count,
          resolution_strategy = strategy, resolution_result = [], cr_notes = None\<rparr>]\<rparr>)"
  using assms by (simp add: resolve_conflict_def Let_def)

theorem resolve_conflict_unrecognized_witness:
  "''latest'' = (case Some ''latest'' of None \<Rightarrow> default_strategy (ConflictResolver_init ''keep_new'' True None)
                 | Some s \<Rightarrow> s) \<and>
   ''latest'' \<notin> {''keep_new'', ''keep_old'', ''merge'', ''keep_frequent''} \<and>
   fst (resolve_conflict (ConflictResolver_init ''keep_new'' True None)
          (''Erik Hort'', ''birthplace'', ''Montebello'')
          (''Erik Hort'', ''birthplace'', ''Rockland County'')
          ''fact-1'' ''fact-2'' 3 1 (Some ''latest'') ''2025-12-25T10:00:00'')
     = \<lparr>timestamp = ''2025-12-25T10:00:00'',
        old_fact = (''Erik Hort'', ''birthplace'', ''Montebello''),
        new_fact = (''Erik Hort'', ''birthplace'', ''Rockland County''),
        old_hash_id = ''fact-1'', new_hash_id = ''fact-2'',
        old_access_count = 3, new_access_count = 1,
        resolution_strategy = ''latest'', resolution_result = [], cr_notes = None\<rparr>"
proof -
  have g: "''latest'' = (case Some ''latest'' of
                 None \<Rightarrow> default_strategy (ConflictResolver_init ''keep_new'' True None)
               | Some s \<Rightarrow> s)" by simp
  have h: "''latest'' \<notin> {''keep_new'', ''keep_old'', ''merge'', ''keep_frequent''}" by simp
  show ?thesis
    using h resolve_conflict_unrecognized [OF g h, of
      "(''Erik Hort'', ''birthplace'', ''Montebello'')"
      "(''Erik Hort'', ''birthplace'', ''Rockland County'')"
      "''fact-1''" "''fact-2''" 3 1 "''2025-12-25T10:00:00''"]
    by simp
qed

text \<open>
  The claim as the specification states it fails: a call with the strategy \<open>bogus\<close> returns a
  record, with an empty result, and the resolver's history holds that record afterwards.
\<close>

theorem resolve_conflict_bogus_counterexample:
  "resolve_conflict (ConflictResolver_init ''keep_new'' True None)
      (''Erik Hort'', ''birthplace'', ''Montebello'')
      (''Erik Hort'', ''birthplace'', ''Rockland County'')
      ''fact-1'' ''fact-2'' 0 0 (Some ''bogus'') ''2025-12-25T10:00:00''
   = (\<lparr>timestamp = ''2025-12-25T10:00:00'',
        old_fact = (''Erik Hort'', ''birthplace'', ''Montebello''),
        new_fact = (''Erik Hort'', ''birthplace'', ''Rockland County''),
        old_hash_id = ''fact-1'', new_hash_id = ''fact-2'',
        old_access_count = 0, new_access_count = 0,
        resolution_strategy = ''bogus'', resolution_result = [], cr_notes = None\<rparr>,
      \<lparr>default_strategy = ''keep_new'', enable_audit_log = True, audit_log_file = None,
       conflict_history =
         [\<lparr>timestamp = ''2025-12-25T10:00:00'',
           old_fact = (''Erik Hort'', ''birthplace'', ''Montebello''),
           new_fact = (''Erik Hort'', ''birthplace'', ''Rockland County''),
           old_hash_id = ''fact-1'', new_hash_id = ''fact-2'',
           old_access_count = 0, new_access_count = 0,
           resolution_strategy = ''bogus'', resolution_result = [], cr_notes = None\<rparr>]\<rparr>)"
  by (simp add: resolve_conflict_def ConflictResolver_init_def Let_def)

section \<open>Vector record store: results\<close>

text \<open>
  C10. For an identifier without recorded access events, whether the log has no entry for
  it or an empty one and whether or not the store knows the identifier,
  \<open>get_access_history\<close> returns the empty list, \<open>get_access_count\<close> returns 0 and
  \<open>get_last_access_time\<close> returns \<open>None\<close>; \<open>get_embedding\<close> on an identifier
  missing from the index raises a \<open>KeyError\<close> instead.
\<close>

theorem access_projections_total:
  assumes "access_history self hash_id = None \<or> access_history self hash_id = Some []"
  shows "get_access_history self hash_id = [] \<and>
         get_access_count self hash_id = 0 \<and>
         get_last_access_time self hash_id = None \<and>
         (hash_id_to_idx self hash_id = None \<longrightarrow>
            get_embedding self hash_id = Inl (KeyError hash_id))"
  using assms
  by (auto simp: get_access_history_def get_access_count_def get_last_access_time_def
        get_embedding_def)

theorem access_projections_total_witness:
  "(access_history (EmbeddingStore_init ''chunk'') ''chunk-unknown'' = None
      \<or> access_history (EmbeddingStore_init ''chunk'') ''chunk-unknown'' = Some []) \<and>
   hash_id_to_idx (EmbeddingStore_init ''chunk'') ''chunk-unknown'' = None \<and>
   get_access_history (EmbeddingStore_init ''chunk'') ''chunk-unknown'' = [] \<and>
   get_access_count (EmbeddingStore_init ''chunk'') ''chunk-unknown'' = 0 \<and>
   get_last_access_time (EmbeddingStore_init ''chunk'') ''chunk-unknown'' = None \<and>
   get_embedding (EmbeddingStore_init ''chunk'') ''chunk-unknown'' = Inl (KeyError ''chunk-unknown'')"
proof -
  have h: "access_history (EmbeddingStore_init ''chunk'') ''chunk-unknown'' = None
      \<or> access_history (EmbeddingStore_init ''chunk'') ''chunk-unknown'' = Some []"
    by (simp add: EmbeddingStore_init_def)
  have k: "hash_id_to_idx (EmbeddingStore_init ''chunk'') ''chunk-unknown'' = None"
    by (simp add: EmbeddingStore_init_def)
  show ?thesis
    using h k access_projections_total [OF h] by simp
qed

subsection \<open>Dictionaries built from the lists\<close>

lemma dict_of_zip_Some:
  "distinct ks \<Longrightarrow> length vs = length ks \<Longrightarrow> i < length ks \<Longrightarrow> dict_of (zip ks vs) (ks ! i) = Some (vs ! i)"
  unfolding dict_of_def
  by (metis distinct_rev length_rev length_zip map_fst_zip map_of_eq_Some_iff min.idem nth_mem nth_zip rev_rev_ident set_rev zip_rev)

lemma dom_dict_of_zip:
  "length vs = length ks \<Longrightarrow> dom (dict_of (zip ks vs)) = set ks"
proof -
  assume len: "length vs = length ks"
  have "dom (dict_of (zip ks vs)) = set (map fst (rev (zip ks vs)))"
    unfolding dict_of_def by (simp add: dom_map_of_conv_image_fst)
  also have "\<dots> = set (map fst (zip ks vs))" by (simp add: rev_map)
  also have "\<dots> = set ks" using len by (simp only: map_fst_zip)
  finally show ?thesis .
qed

lemma dict_of_zip_None:
  "length vs = length ks \<Longrightarrow> dict_of (zip ks vs) k = None \<longleftrightarrow> k \<notin> set ks"
  using dom_dict_of_zip[of vs ks] by (auto simp: domIff)

lemma update_keys_set: "fst ` set (AList.update k v al) = insert k (fst ` set al)"
  using update_keys[of k v al] arg_cong[OF update_keys[of k v al], of set]
  by (auto simp flip: set_map split: if_splits)

lemma nodes_keys_distinct:
  "distinct (map fst nd) \<Longrightarrow> distinct (map fst (nodes_dict_of f p txts nd))"
  by (induction txts arbitrary: nd) (auto simp: distinct_update)

lemma nodes_keys_set:
  "fst ` set (nodes_dict_of f p txts nd) = fst ` set nd \<union> (\<lambda>t. f t p) ` set txts"
  by (induction txts arbitrary: nd) (auto simp: update_keys_set)


lemma store_inv_row_None:
  "store_inv s \<Longrightarrow> hash_id_to_row s h = None \<longleftrightarrow> h \<notin> set (hash_ids s)"
  by (simp add: store_inv_def dict_of_zip_None)

lemma save_data_inv:
  assumes "length (texts s) = length (hash_ids s)" "length (embeddings s) = length (hash_ids s)"
    "distinct (hash_ids s)"
  shows "snd (save_data s) = None \<and> store_inv (fst (save_data s)) \<and>
         hash_ids (fst (save_data s)) = hash_ids s \<and> texts (fst (save_data s)) = texts s \<and>
         embeddings (fst (save_data s)) = embeddings s \<and>
         access_history (fst (save_data s)) = access_history s \<and>
         namespace (fst (save_data s)) = namespace s"
  using assms by (simp add: save_data_def store_inv_def)

lemma insert_strings_ok:
  assumes inv: "store_inv s" and enc: "\<forall>ts. length (be ts) = length ts"
    and res: "insert_strings cm be s txts = (s1, b1, e1)"
  shows "e1 = None \<and> store_inv s1 \<and> namespace s1 = namespace s \<and>
         set (hash_ids s1) = set (hash_ids s) \<union> (\<lambda>t. cm t (namespace s @ ''-'')) ` set txts"
proof -
  define nd where "nd = nodes_dict_of cm (namespace s @ ''-'') txts []"
  define A where "A = map fst nd"
  define M where "M = filter (\<lambda>h. hash_id_to_row s h = None) A"
  define T where "T = map (\<lambda>h. the (map_of nd h)) M"
  have setA: "set A = (\<lambda>t. cm t (namespace s @ ''-'')) ` set txts"
    unfolding A_def nd_def using nodes_keys_set[of cm "namespace s @ ''-''" txts "[]"] by simp
  have distA: "distinct A"
    unfolding A_def nd_def by (rule nodes_keys_distinct) simp
  have M_eq: "M = filter (\<lambda>h. h \<notin> set (hash_ids s)) A"
    unfolding M_def using inv by (simp add: store_inv_row_None)
  show ?thesis
  proof (cases "M = []")
    case True
    then have "insert_strings cm be s txts = (s, [], None)"
      by (simp add: insert_strings_def Let_def nd_def[symmetric] A_def[symmetric] M_def[symmetric])
    moreover have "set A \<subseteq> set (hash_ids s)"
      using True unfolding M_eq by (auto simp: filter_empty_conv)
    ultimately show ?thesis using res inv setA by auto
  next
    case False
    then have Ane: "nd \<noteq> []" unfolding M_def A_def by auto
    let ?s' = "s\<lparr>embeddings := embeddings s @ be T, hash_ids := hash_ids s @ M, texts := texts s @ T\<rparr>"
    have ins: "insert_strings cm be s txts = (fst (save_data ?s'), [T], snd (save_data ?s'))"
      using False Ane
      by (simp add: insert_strings_def Let_def nd_def[symmetric] A_def[symmetric] M_def[symmetric]
            T_def[symmetric] upsert_def split: prod.splits)
    have len: "length (texts ?s') = length (hash_ids ?s')" "length (embeddings ?s') = length (hash_ids ?s')"
      using inv enc by (simp_all add: store_inv_def T_def)
    have dist: "distinct (hash_ids ?s')"
      using inv distA unfolding M_eq by (auto simp: store_inv_def)
    have "set (hash_ids s @ M) = set (hash_ids s) \<union> set A"
      unfolding M_eq by auto
    with save_data_inv[OF len dist] ins res setA show ?thesis by auto
  qed
qed

lemma insert_strings_present:
  assumes inv: "store_inv s"
    and sub: "(\<lambda>t. cm t (namespace s @ ''-'')) ` set txts \<subseteq> set (hash_ids s)"
  shows "insert_strings cm be s txts = (s, [], None)"
proof -
  define nd where "nd = nodes_dict_of cm (namespace s @ ''-'') txts []"
  have "set (map fst nd) \<subseteq> set (hash_ids s)"
    unfolding nd_def using nodes_keys_set[of cm "namespace s @ ''-''" txts "[]"] sub by simp
  then have "filter (\<lambda>h. hash_id_to_row s h = None) (map fst nd) = []"
    using inv by (auto simp: store_inv_row_None filter_empty_conv)
  then show ?thesis
    by (simp add: insert_strings_def Let_def nd_def[symmetric])
qed



subsection \<open>Deleting a list of pairwise different identifiers\<close>

lemma nths_cong_lt: "(\<And>i. i < length xs \<Longrightarrow> (i \<in> A \<longleftrightarrow> i \<in> B)) \<Longrightarrow> nths xs A = nths xs B"
  unfolding nths_def
  by (rule arg_cong[where f="map fst"], rule filter_cong[OF refl]) (auto simp: in_set_zip)

lemma nths_pop:
  assumes "\<forall>j\<in>S. j < idx" "idx < length xs"
  shows "nths (list_pop idx xs) (- S) = nths xs (- insert idx S)"
proof -
  have xs: "xs = take idx xs @ xs ! idx # drop (Suc idx) xs"
    using assms(2) by (rule id_take_nth_drop)
  have len: "length (take idx xs) = idx" using assms(2) by simp
  have A: "{j. j + idx \<in> - S} = UNIV" using assms(1) by auto
  have B: "{j. Suc j + idx \<in> - insert idx S} = UNIV" using assms(1) by auto
  have C: "nths (take idx xs) (- insert idx S) = nths (take idx xs) (- S)"
    by (rule nths_cong_lt) (use len in auto)
  have L: "nths (list_pop idx xs) (- S) = nths (take idx xs) (- S) @ drop (Suc idx) xs"
    unfolding list_pop_def nths_append len A by (simp add: nths_all)
  have "nths xs (- insert idx S) = nths (take idx xs @ xs ! idx # drop (Suc idx) xs) (- insert idx S)"
    using xs by simp
  also have "\<dots> = nths (take idx xs) (- S) @ drop (Suc idx) xs"
    unfolding nths_append len nths_Cons C using B by (simp add: nths_all)
  finally show ?thesis using L by simp
qed

lemma list_pop_nth_lt: "j < idx \<Longrightarrow> idx < length xs \<Longrightarrow> list_pop idx xs ! j = xs ! j"
  by (simp add: list_pop_def nth_append)

lemma length_list_pop: "idx < length xs \<Longrightarrow> length (list_pop idx xs) = length xs - 1"
  by (simp add: list_pop_def)

lemma delete_loop_desc:
  assumes "sorted_wrt (>) L" "\<forall>i\<in>set L. i < length (hash_ids s)"
    "length (texts s) = length (hash_ids s)" "length (embeddings s) = length (hash_ids s)"
  shows "delete_loop s L =
     (s\<lparr>hash_ids := nths (hash_ids s) (- set L),
        texts := nths (texts s) (- set L),
        embeddings := nths (embeddings s) (- set L),
        access_history := (\<lambda>h. if h \<in> (\<lambda>i. hash_ids s ! i) ` set L then None else access_history s h)\<rparr>,
      None)"
  using assms
proof (induction L arbitrary: s)
  case Nil
  show ?case by (simp add: nths_all)
next
  case (Cons idx rest)
  let ?s4 = "s\<lparr>hash_ids := list_pop idx (hash_ids s), texts := list_pop idx (texts s),
               embeddings := list_pop idx (embeddings s),
               access_history := (access_history s)(hash_ids s ! idx := None)\<rparr>"
  have idx: "idx < length (hash_ids s)" using Cons.prems by simp
  have lt: "\<forall>j\<in>set rest. j < idx" using Cons.prems(1) by auto
  have step: "delete_loop s (idx # rest) = delete_loop ?s4 rest"
    using idx Cons.prems(3,4) by (simp add: Let_def length_list_pop)
  have pre: "sorted_wrt (>) rest" "\<forall>i\<in>set rest. i < length (hash_ids ?s4)"
    "length (texts ?s4) = length (hash_ids ?s4)" "length (embeddings ?s4) = length (hash_ids ?s4)"
    using Cons.prems idx lt by (auto simp: length_list_pop)
  have img: "\<And>h. h \<in> (\<lambda>i. list_pop idx (hash_ids s) ! i) ` set rest \<longleftrightarrow> h \<in> (\<lambda>i. hash_ids s ! i) ` set rest"
    using lt idx by (auto simp: list_pop_nth_lt image_iff)
  have ah: "(\<lambda>h. if h \<in> (\<lambda>i. hash_ids ?s4 ! i) ` set rest then None
                  else access_history ?s4 h)
          = (\<lambda>h. if h \<in> (\<lambda>i. hash_ids s ! i) ` set (idx # rest) then None else access_history s h)"
    by (rule ext) (use img in auto)
  show ?case
    unfolding step Cons.IH[OF pre]
    using nths_pop[OF lt idx] nths_pop[OF lt, of "texts s"] nths_pop[OF lt, of "embeddings s"]
      idx Cons.prems(3,4) ah
    by simp
qed


lemma store_inv_idx:
  "store_inv s \<Longrightarrow> i < length (hash_ids s) \<Longrightarrow> hash_id_to_idx s (hash_ids s ! i) = Some i"
  using dict_of_zip_Some[of "hash_ids s" "[0..<length (hash_ids s)]" i]
  by (simp add: store_inv_def)

lemma store_inv_idx_None:
  "store_inv s \<Longrightarrow> hash_id_to_idx s h = None \<longleftrightarrow> h \<notin> set (hash_ids s)"
  by (simp add: store_inv_def dict_of_zip_None)

lemma lookup_indices_ok:
  assumes "store_inv s" "set ids \<subseteq> set (hash_ids s)"
  shows "\<exists>idxs. lookup_indices (hash_id_to_idx s) ids = Inr idxs \<and>
           map (\<lambda>i. hash_ids s ! i) idxs = ids \<and> (\<forall>i\<in>set idxs. i < length (hash_ids s))"
  using assms(2)
proof (induction ids)
  case Nil
  show ?case by simp
next
  case (Cons h ids)
  then obtain idxs where r: "lookup_indices (hash_id_to_idx s) ids = Inr idxs"
    "map (\<lambda>i. hash_ids s ! i) idxs = ids" "\<forall>i\<in>set idxs. i < length (hash_ids s)" by auto
  from Cons.prems obtain i where i: "i < length (hash_ids s)" "hash_ids s ! i = h"
    by (auto simp: in_set_conv_nth)
  with store_inv_idx[OF assms(1), of i] have "hash_id_to_idx s h = Some i" by simp
  with r i show ?case by simp
qed

lemma delete_distinct_ids:
  assumes inv: "store_inv s" and dist: "distinct ids" and sub: "set ids \<subseteq> set (hash_ids s)"
  shows "snd (delete s ids) = None \<and> store_inv (fst (delete s ids)) \<and>
         hash_ids (fst (delete s ids)) = filter (\<lambda>h. h \<notin> set ids) (hash_ids s) \<and>
         texts (fst (delete s ids)) = nths (texts s) {i. hash_ids s ! i \<notin> set ids} \<and>
         embeddings (fst (delete s ids)) = nths (embeddings s) {i. hash_ids s ! i \<notin> set ids} \<and>
         access_history (fst (delete s ids)) = (\<lambda>h. if h \<in> set ids then None else access_history s h)"
proof -
  from lookup_indices_ok[OF inv sub] obtain idxs where
    r: "lookup_indices (hash_id_to_idx s) ids = Inr idxs"
    and m: "map (\<lambda>i. hash_ids s ! i) idxs = ids"
    and b: "\<forall>i\<in>set idxs. i < length (hash_ids s)" by blast
  let ?L = "rev (sort idxs)"
  have di: "distinct idxs" using dist m by (metis distinct_map)
  have desc: "sorted_wrt (>) ?L"
    using di by (simp add: sorted_wrt_rev strict_sorted_iff)
  have bL: "\<forall>i\<in>set ?L. i < length (hash_ids s)" using b by simp
  have len: "length (texts s) = length (hash_ids s)" "length (embeddings s) = length (hash_ids s)"
    and dh: "distinct (hash_ids s)"
    using inv by (simp_all add: store_inv_def)
  have img: "(\<lambda>i. hash_ids s ! i) ` set idxs = set ids" using m by (metis set_map)
  let ?s' = "s\<lparr>hash_ids := nths (hash_ids s) (- set idxs),
        texts := nths (texts s) (- set idxs),
        embeddings := nths (embeddings s) (- set idxs),
        access_history := (\<lambda>h. if h \<in> set ids then None else access_history s h)\<rparr>"
  have loop: "delete_loop s ?L = (?s', None)"
    using delete_loop_desc[OF desc bL len] img by simp
  have del: "delete s ids = save_data ?s'"
    by (simp add: delete_def r loop)
  have keep: "\<And>i. i < length (hash_ids s) \<Longrightarrow> i \<in> - set idxs \<longleftrightarrow> hash_ids s ! i \<notin> set ids"
  proof -
    fix i assume i: "i < length (hash_ids s)"
    show "i \<in> - set idxs \<longleftrightarrow> hash_ids s ! i \<notin> set ids"
    proof
      assume "i \<in> - set idxs"
      show "hash_ids s ! i \<notin> set ids"
      proof
        assume "hash_ids s ! i \<in> set ids"
        then have "hash_ids s ! i \<in> (\<lambda>i. hash_ids s ! i) ` set idxs"
          using img by simp
        then obtain j where j: "j \<in> set idxs" "hash_ids s ! j = hash_ids s ! i"
          by (auto simp: image_iff)
        with b i dh have "j = i" by (simp add: nth_eq_iff_index_eq)
        with j \<open>i \<in> - set idxs\<close> show False by simp
      qed
    next
      assume "hash_ids s ! i \<notin> set ids"
      then show "i \<in> - set idxs" using img by auto
    qed
  qed
  have lens: "length (nths (texts s) (- set idxs)) = length (nths (hash_ids s) (- set idxs))"
    "length (nths (embeddings s) (- set idxs)) = length (nths (hash_ids s) (- set idxs))"
    using len by (simp_all add: length_nths)
  have sv: "snd (save_data ?s') = None \<and> store_inv (fst (save_data ?s')) \<and>
         hash_ids (fst (save_data ?s')) = hash_ids ?s' \<and> texts (fst (save_data ?s')) = texts ?s' \<and>
         embeddings (fst (save_data ?s')) = embeddings ?s' \<and>
         access_history (fst (save_data ?s')) = access_history ?s' \<and>
         namespace (fst (save_data ?s')) = namespace ?s'"
    by (rule save_data_inv) (use lens dh in simp_all)
  have h1: "nths (hash_ids s) (- set idxs) = filter (\<lambda>h. h \<notin> set ids) (hash_ids s)"
    unfolding filter_eq_nths by (rule nths_cong_lt) (use keep in auto)
  have h2: "nths (texts s) (- set idxs) = nths (texts s) {i. hash_ids s ! i \<notin> set ids}"
    by (rule nths_cong_lt) (use keep len in auto)
  have h3: "nths (embeddings s) (- set idxs) = nths (embeddings s) {i. hash_ids s ! i \<notin> set ids}"
    by (rule nths_cong_lt) (use keep len in auto)
  show ?thesis unfolding del using sv h1 h2 h3 by simp
qed

subsection \<open>Inserting a text twice\<close>

lemma count_list_distinct: "distinct xs \<Longrightarrow> x \<in> set xs \<Longrightarrow> count_list xs x = 1"
  by (induction xs) auto

text \<open>
  C9. Let the store satisfy its invariant and let the encoder return one embedding for each
  text it is given. After \<open>insert_strings\<close> on a list that holds the text \<open>t\<close>, once or
  several times, the call has raised nothing and the identifier \<open>compute_mdhash_id(t)\<close>
  occurs exactly once among the stored identifiers; inserting \<open>t\<close> again, alone or with
  the same list, leaves the whole store as it is, hands no batch to the encoder and raises
  nothing.
\<close>

theorem upsert_idempotent:
  assumes "store_inv s" and "\<forall>ts. length (batch_encode ts) = length ts"
    and "t \<in> set txts"
    and "insert_strings compute_mdhash_id batch_encode s txts = (s1, batches1, exc1)"
  shows "exc1 = None \<and> store_inv s1 \<and>
         count_list (hash_ids s1) (compute_mdhash_id t (namespace s @ ''-'')) = 1 \<and>
         insert_strings compute_mdhash_id batch_encode s1 [t] = (s1, [], None) \<and>
         insert_strings compute_mdhash_id batch_encode s1 txts = (s1, [], None)"
proof -
  note ok = insert_strings_ok[OF assms(1,2,4)]
  have mem: "compute_mdhash_id t (namespace s @ ''-'') \<in> set (hash_ids s1)"
    using ok assms(3) by auto
  have dist: "distinct (hash_ids s1)" using ok by (simp add: store_inv_def)
  have one: "count_list (hash_ids s1) (compute_mdhash_id t (namespace s @ ''-'')) = 1"
    using mem dist by (simp add: count_list_distinct)
  have again: "insert_strings compute_mdhash_id batch_encode s1 txts = (s1, [], None)"
    by (rule insert_strings_present) (use ok in auto)
  have single: "insert_strings compute_mdhash_id batch_encode s1 [t] = (s1, [], None)"
    by (rule insert_strings_present) (use ok mem in auto)
  show ?thesis using ok one again single by simp
qed

lemmas store_eval = insert_strings_def Let_def example_hash_def example_encode_def
  EmbeddingStore_init_def upsert_def save_data_def dict_of_def delete_def list_pop_def

lemma one_record_eq:
  "one_record =
     \<lparr>namespace = ''chunk'', hash_ids = [''chunk-a''], texts = [''a''],
      embeddings = [NdArray [1, 1]],
      hash_id_to_idx = [''chunk-a'' \<mapsto> 0],
      hash_id_to_row = [''chunk-a'' \<mapsto> (''chunk-a'', ''a'')],
      hash_id_to_text = Some [''chunk-a'' \<mapsto> ''a''],
      text_to_hash_id = Some [''a'' \<mapsto> ''chunk-a''],
      access_history = Map.empty,
      parquet_file = Some ([''chunk-a''], [''a''], [NdArray [1, 1]]),
      access_history_file = Some Map.empty\<rparr>"
  by (simp add: one_record_def store_eval)

lemma two_records_eq:
  "two_records =
     \<lparr>namespace = ''chunk'', hash_ids = [''chunk-a'', ''chunk-b''], texts = [''a'', ''b''],
      embeddings = [NdArray [1, 1], NdArray [1, 1]],
      hash_id_to_idx = [''chunk-a'' \<mapsto> 0, ''chunk-b'' \<mapsto> 1],
      hash_id_to_row = [''chunk-a'' \<mapsto> (''chunk-a'', ''a''), ''chunk-b'' \<mapsto> (''chunk-b'', ''b'')],
      hash_id_to_text = Some [''chunk-a'' \<mapsto> ''a'', ''chunk-b'' \<mapsto> ''b''],
      text_to_hash_id = Some [''a'' \<mapsto> ''chunk-a'', ''b'' \<mapsto> ''chunk-b''],
      access_history = Map.empty,
      parquet_file = Some ([''chunk-a'', ''chunk-b''], [''a'', ''b''], [NdArray [1, 1], NdArray [1, 1]]),
      access_history_file = Some Map.empty\<rparr>"
  by (simp add: two_records_def store_eval fun_upd_twist)

lemma store_inv_init: "store_inv (EmbeddingStore_init ns)"
  by (simp add: store_inv_def EmbeddingStore_init_def dict_of_def)

lemma example_encode_length: "\<forall>ts. length (example_encode ts) = length ts"
  by (simp add: example_encode_def)

theorem upsert_idempotent_witness:
  "store_inv (EmbeddingStore_init ''chunk'') \<and>
   (\<forall>ts. length (example_encode ts) = length ts) \<and>
   ''a'' \<in> set [''a'', ''a''] \<and>
   insert_strings example_hash example_encode (EmbeddingStore_init ''chunk'') [''a'', ''a'']
     = (one_record, [[''a'']], None) \<and>
   store_inv one_record \<and>
   count_list (hash_ids one_record) ''chunk-a'' = 1 \<and>
   insert_strings example_hash example_encode one_record [''a''] = (one_record, [], None) \<and>
   insert_strings example_hash example_encode one_record [''a'', ''a''] = (one_record, [], None)"
proof -
  have first: "insert_strings example_hash example_encode (EmbeddingStore_init ''chunk'') [''a'', ''a'']
     = (one_record, [[''a'']], None)"
    unfolding one_record_eq by (simp add: store_eval)
  have mem: "''a'' \<in> set [''a'', ''a'']" by simp
  have h: "example_hash ''a'' (namespace (EmbeddingStore_init ''chunk'') @ ''-'') = ''chunk-a''"
    by (simp add: example_hash_def EmbeddingStore_init_def)
  show ?thesis
    using upsert_idempotent [OF store_inv_init example_encode_length mem first]
      store_inv_init example_encode_length first
    unfolding h by simp
qed

text \<open>
  C7 at a request that names an identifier twice. On the store of two records,
  \<open>delete\<close> pops index 0 twice: the second pop removes the record \<open>chunk-b\<close>, which
  the request does not name. On the store of one record the second pop is out of range:
  the call raises an \<open>IndexError\<close> after the record is gone and before \<open>_save_data\<close>,
  so the index still maps \<open>chunk-a\<close> to 0 while no identifier is stored.
\<close>

theorem delete_repeated_identifier:
  "store_inv two_records \<and> hash_ids two_records = [''chunk-a'', ''chunk-b''] \<and>
   snd (delete two_records [''chunk-a'', ''chunk-a'']) = None \<and>
   hash_ids (fst (delete two_records [''chunk-a'', ''chunk-a''])) = [] \<and>
   store_inv one_record \<and> hash_ids one_record = [''chunk-a''] \<and>
   snd (delete one_record [''chunk-a'', ''chunk-a'']) = Some IndexError \<and>
   hash_ids (fst (delete one_record [''chunk-a'', ''chunk-a''])) = [] \<and>
   hash_id_to_idx (fst (delete one_record [''chunk-a'', ''chunk-a''])) ''chunk-a'' = Some 0 \<and>
   \<not> store_inv (fst (delete one_record [''chunk-a'', ''chunk-a'']))"
proof -
  have inv2: "store_inv two_records"
    unfolding two_records_eq by (simp add: store_inv_def dict_of_def fun_upd_twist)
  have inv1: "store_inv one_record"
    unfolding one_record_eq by (simp add: store_inv_def dict_of_def)
  have d2: "snd (delete two_records [''chunk-a'', ''chunk-a'']) = None \<and>
      hash_ids (fst (delete two_records [''chunk-a'', ''chunk-a''])) = []"
    unfolding two_records_eq by (simp add: store_eval)
  have d1: "snd (delete one_record [''chunk-a'', ''chunk-a'']) = Some IndexError \<and>
      hash_ids (fst (delete one_record [''chunk-a'', ''chunk-a''])) = [] \<and>
      hash_id_to_idx (fst (delete one_record [''chunk-a'', ''chunk-a''])) ''chunk-a'' = Some 0"
    unfolding one_record_eq by (simp add: store_eval)
  have bad: "\<not> store_inv (fst (delete one_record [''chunk-a'', ''chunk-a'']))"
  proof
    assume "store_inv (fst (delete one_record [''chunk-a'', ''chunk-a'']))"
    from store_inv_idx_None [OF this, of "''chunk-a''"]
    have "hash_id_to_idx (fst (delete one_record [''chunk-a'', ''chunk-a''])) ''chunk-a'' = None"
      using d1 by simp
    with d1 show False by simp
  qed
  show ?thesis
    using inv2 inv1 d2 d1 bad by (simp add: one_record_eq two_records_eq)
qed

section \<open>Activation engine: results\<close>


subsection \<open>State export and import\<close>

text \<open>
  C8. Loading the exported state of an engine into any other engine gives an engine equal
  to the first one in every field: window size, the three weights, relevance threshold,
  decay rate and window contents. Every later call of \<open>calculate_activation_score\<close>
  therefore returns on the restored engine what it returns on the original one.
\<close>

theorem export_load_roundtrip:
  "load_state fresh (export_state self) = self \<and>
   calculate_activation_score fp (load_state fresh (export_state self)) memory_hash_id history
       current_query_embedding memory_embedding current_time now
     = calculate_activation_score fp self memory_hash_id history
         current_query_embedding memory_embedding current_time now"
proof -
  have "load_state fresh (export_state self) = self"
    by (simp add: load_state_def export_state_def)
  then show ?thesis by simp
qed

subsection \<open>The query context window\<close>

lemma add_query_context_window_ok:
  "window_ok self \<Longrightarrow> window_ok (add_query_context self q e now)"
  by (auto simp: window_ok_def add_query_context_def Let_def)

lemma load_state_window_ok: "state_ok state \<Longrightarrow> window_ok (load_state self state)"
  by (simp add: window_ok_def state_ok_def load_state_def)

lemma export_state_ok: "window_ok self \<Longrightarrow> state_ok (export_state self)"
  by (simp add: window_ok_def state_ok_def export_state_def)

lemma run_ops_window_ok:
  "window_ok self \<Longrightarrow> loads_ok ops \<Longrightarrow> window_ok (run_ops self ops)"
  unfolding run_ops_def
proof (induction ops arbitrary: self)
  case Nil
  then show ?case by simp
next
  case (Cons op ops)
  then show ?case
    by (cases op) (simp_all add: add_query_context_window_ok load_state_window_ok)
qed

lemma init_window_ok:
  "ContextAwareMemoryManager_init fp n rw fw relw thr dr = Inr self \<Longrightarrow> 0 \<le> n \<Longrightarrow> window_ok self"
  by (auto simp: ContextAwareMemoryManager_init_def Let_def window_ok_def split: if_splits)

text \<open>
  C5, as the code has it. Take an engine built by the constructor with a window size that
  is not negative, and any sequence of \<open>add_query_context\<close>, \<open>export_state\<close> and
  \<open>load_state\<close> in which every loaded state has a window no longer than its window size.
  Then the window is never longer than the window size, every state the engine exports can
  be loaded again, and a further \<open>add_query_context\<close> appends its entry and drops the oldest
  entry exactly when the window was full.
\<close>

theorem window_never_exceeds:
  assumes "ContextAwareMemoryManager_init fp n rw fw relw thr dr = Inr self"
    and "0 \<le> n" and "loads_ok ops"
  shows "window_ok (run_ops self ops) \<and>
         state_ok (export_state (run_ops self ops)) \<and>
         query_history (add_query_context (run_ops self ops) q e now) =
           (if int (length (query_history (run_ops self ops))) = context_window_size (run_ops self ops)
            then tl (query_history (run_ops self ops)
                       @ [\<lparr>ctx_timestamp = now, ctx_query = q, ctx_embedding = PyList (values_of e)\<rparr>])
            else query_history (run_ops self ops)
                   @ [\<lparr>ctx_timestamp = now, ctx_query = q, ctx_embedding = PyList (values_of e)\<rparr>])"
proof -
  have ok: "window_ok (run_ops self ops)"
    using assms by (simp add: init_window_ok run_ops_window_ok)
  then have "int (length (query_history (run_ops self ops))) \<le> context_window_size (run_ops self ops)"
    by (simp add: window_ok_def)
  then show ?thesis
    using ok by (auto simp: export_state_ok add_query_context_def Let_def)
qed

theorem window_never_exceeds_witness:
  "ContextAwareMemoryManager_init exact_floats 1 (3 / 10) (2 / 10) (5 / 10) (3 / 10) (1 / 100)
     = Inr (default_manager\<lparr>context_window_size := 1\<rparr>) \<and>
   (0::int) \<le> 1 \<and>
   loads_ok [AddQueryContext ''first'' (NdArray [1, 0]) 0, ExportState,
             LoadState (export_state default_manager)] \<and>
   window_ok (run_ops (default_manager\<lparr>context_window_size := 1\<rparr>)
     [AddQueryContext ''first'' (NdArray [1, 0]) 0, ExportState,
      LoadState (export_state default_manager)]) \<and>
   query_history (add_query_context (default_manager\<lparr>context_window_size := 1\<rparr>) ''first'' (NdArray [1, 0]) 0)
     = [\<lparr>ctx_timestamp = 0, ctx_query = ''first'', ctx_embedding = PyList [1, 0]\<rparr>] \<and>
   query_history (add_query_context
       (add_query_context (default_manager\<lparr>context_window_size := 1\<rparr>) ''first'' (NdArray [1, 0]) 0)
       ''second'' (NdArray [0, 1]) 1)
     = [\<lparr>ctx_timestamp = 1, ctx_query = ''second'', ctx_embedding = PyList [0, 1]\<rparr>]"
proof -
  have i: "ContextAwareMemoryManager_init exact_floats 1 (3 / 10) (2 / 10) (5 / 10) (3 / 10) (1 / 100)
     = Inr (default_manager\<lparr>context_window_size := 1\<rparr>)"
    by (simp add: ContextAwareMemoryManager_init_def default_manager_def exact_floats_def)
  have n: "(0::int) \<le> 1" by simp
  have l: "loads_ok [AddQueryContext ''first'' (NdArray [1, 0]) 0, ExportState,
             LoadState (export_state default_manager)]"
    by (simp add: state_ok_def export_state_def default_manager_def)
  have l0: "loads_ok []" by simp
  have l1: "loads_ok [AddQueryContext ''first'' (NdArray [1, 0]) 0]" by simp
  show ?thesis
    using i n l window_never_exceeds [OF i n l]
      window_never_exceeds [OF i n l0, of "''first''" "NdArray [1, 0]" 0]
      window_never_exceeds [OF i n l1, of "''second''" "NdArray [0, 1]" 1]
    by (simp add: run_ops_def add_query_context_def default_manager_def)
qed

text \<open>
  The claim as the specification states it fails at \<open>load_state\<close>: it installs the window of
  the state as it is. After loading a state with window size 1 and two entries the window
  holds two entries, and a further \<open>add_query_context\<close>, which pops a single entry, leaves
  two again.
\<close>

theorem load_state_overlong_counterexample:
  "context_window_size (run_ops default_manager [LoadState overlong_state]) = 1 \<and>
   length (query_history (run_ops default_manager [LoadState overlong_state])) = 2 \<and>
   context_window_size (run_ops default_manager
      [LoadState overlong_state, AddQueryContext ''third'' (NdArray [1, 1]) 2]) = 1 \<and>
   length (query_history (run_ops default_manager
      [LoadState overlong_state, AddQueryContext ''third'' (NdArray [1, 1]) 2])) = 2"
  by (simp add: run_ops_def load_state_def overlong_state_def add_query_context_def
        default_manager_def)

subsection \<open>Bounds of the activation score\<close>

lemma fmul_exact: "fmul exact_floats a b = a * b"
  by (simp add: exact_floats_def)










subsection \<open>Selecting the memories to forget\<close>

lemma batch_loop_keys:
  "batch_loop fp self store q clock k hs acc = Inr res \<Longrightarrow> distinct (map fst acc) \<Longrightarrow> distinct (map fst res)"
proof (induction hs arbitrary: k acc)
  case Nil
  then show ?case by simp
next
  case (Cons h hs)
  then show ?case
    by (auto split: sum.splits simp: distinct_update)
qed

lemma set_update_subset: "(a, b) \<in> set (AList.update k v al) \<Longrightarrow> (a, b) \<in> set al \<or> (a = k \<and> b = v)"
  by (induction al) (auto split: if_splits)

lemma batch_loop_scores:
  "batch_loop fp self store q clock k hs acc = Inr res \<Longrightarrow> (h, sc) \<in> set res \<Longrightarrow>
     (h, sc) \<in> set acc \<or>
     (\<exists>j me. calculate_activation_score fp self h (get_access_history store h) q me None (clock j) = Inr sc)"
proof (induction hs arbitrary: k acc)
  case Nil
  then show ?case by simp
next
  case (Cons h' hs)
  from Cons.prems(1) obtain me sc' where
    me: "get_embedding store h' = Inr me"
    and sc': "calculate_activation_score fp self h' (get_access_history store h') q me None (clock k) = Inr sc'"
    and rest: "batch_loop fp self store q clock (Suc k) hs (AList.update h' sc' acc) = Inr res"
    by (auto split: sum.splits)
  from Cons.IH[OF rest Cons.prems(2)] show ?case
  proof
    assume "(h, sc) \<in> set (AList.update h' sc' acc)"
    from set_update_subset[OF this] show ?thesis using sc' by auto
  next
    assume "\<exists>j me. calculate_activation_score fp self h (get_access_history store h) q me None (clock j) = Inr sc"
    then show ?thesis by simp
  qed
qed

lemma score_retain:
  "calculate_activation_score fp self h history q me ct now = Inr sc \<Longrightarrow>
     should_retain sc = (total_activation sc \<ge> 5 / 100 \<or> history = [])"
  by (auto simp: calculate_activation_score_def Let_def split: sum.splits)

lemma forget_members:
  assumes b: "calculate_batch_activation fp self store q clock = Inr all_scores"
    and g: "get_memories_to_forget fp self store q ratio clock = Inr to_forget"
  shows "to_forget = map fst (filter (\<lambda>x. should_retain (snd x) = False)
            (drop (nat (retain_count_of fp (length all_scores) ratio)) (sorted_memories_of all_scores)))"
  using g by (simp add: get_memories_to_forget_def b Let_def sorted_memories_of_def)

lemma sorted_memories_set: "set (sorted_memories_of al) = set al"
  by (simp add: sorted_memories_of_def)

lemma sorted_memories_length: "length (sorted_memories_of al) = length al"
  by (simp add: sorted_memories_of_def)

lemma sorted_memories_descending:
  "sorted_wrt (\<lambda>x y. total_activation (snd x) \<ge> total_activation (snd y)) (sorted_memories_of al)"
proof -
  have "sorted (map (\<lambda>x. - total_activation (snd x)) (sorted_memories_of al))"
    unfolding sorted_memories_of_def by (rule sorted_sort_key)
  then show ?thesis by (simp add: sorted_map)
qed

lemma sorted_memories_keys:
  "distinct (map fst al) \<Longrightarrow> distinct (map fst (sorted_memories_of al))"
  by (simp add: distinct_map sorted_memories_of_def)

lemma take_drop_keys_disjoint:
  assumes "distinct (map fst r)"
  shows "fst ` set (take n r) \<inter> fst ` set (drop n r) = {}"
proof -
  have "distinct (map fst (take n r) @ map fst (drop n r))"
    using assms by (simp flip: map_append)
  then show ?thesis by auto
qed

lemma retain_count_floor:
  "retain_count_of fp n ratio = max 1 \<lfloor>fmul fp (real n) ratio\<rfloor>"
  by (simp add: retain_count_of_def py_int_def)

lemma three_accessed_eq:
  "three_accessed =
     \<lparr>namespace = ''chunk'', hash_ids = [''chunk-a'', ''chunk-b'', ''chunk-c''],
      texts = [''a'', ''b'', ''c''],
      embeddings = [NdArray [1, 1], NdArray [1, 1], NdArray [1, 1]],
      hash_id_to_idx = [''chunk-a'' \<mapsto> 0, ''chunk-b'' \<mapsto> 1, ''chunk-c'' \<mapsto> 2],
      hash_id_to_row = [''chunk-a'' \<mapsto> (''chunk-a'', ''a''), ''chunk-b'' \<mapsto> (''chunk-b'', ''b''),
                        ''chunk-c'' \<mapsto> (''chunk-c'', ''c'')],
      hash_id_to_text = Some [''chunk-a'' \<mapsto> ''a'', ''chunk-b'' \<mapsto> ''b'', ''chunk-c'' \<mapsto> ''c''],
      text_to_hash_id = Some [''a'' \<mapsto> ''chunk-a'', ''b'' \<mapsto> ''chunk-b'', ''c'' \<mapsto> ''chunk-c''],
      access_history = [''chunk-a'' \<mapsto> [late_event], ''chunk-b'' \<mapsto> [late_event],
                        ''chunk-c'' \<mapsto> [late_event]],
      parquet_file = Some ([''chunk-a'', ''chunk-b'', ''chunk-c''], [''a'', ''b'', ''c''],
                           [NdArray [1, 1], NdArray [1, 1], NdArray [1, 1]]),
      access_history_file = Some Map.empty\<rparr>"
  by (simp add: three_accessed_def store_eval record_access_def late_event_def fun_upd_twist numeral_2_eq_2)

lemma exp_minus_ten: "exp (- 10 :: real) < 1 / 6"
proof -
  have "(11::real) \<le> exp 10" using exp_ge_add_one_self[of "10::real"] by simp
  then have "inverse (exp (10::real)) \<le> inverse 11"
    by (intro le_imp_inverse_le) simp_all
  then show ?thesis by (simp add: exp_minus)
qed

lemma faded_score:
  "calculate_activation_score exact_floats default_manager h [late_event] (NdArray [1, - 1]) (NdArray [1, 1])
     None 95040000 = Inr (faded h)"
  using exp_minus_ten
  by (simp add: calculate_activation_score_def Let_def default_manager_def late_event_def
      cosine_similarity_def exact_floats_def exact_norm_def exact_dot_def faded_def)

lemma batch_three:
  "calculate_batch_activation exact_floats default_manager three_accessed (NdArray [1, - 1]) late_clock
     = Inr [(''chunk-a'', faded ''chunk-a''), (''chunk-b'', faded ''chunk-b''),
            (''chunk-c'', faded ''chunk-c'')]"
  by (simp add: calculate_batch_activation_def get_all_ids_def three_accessed_eq get_embedding_def
      get_access_history_def late_clock_def faded_score)

lemma forget_three:
  "get_memories_to_forget exact_floats default_manager three_accessed (NdArray [1, - 1]) (1 / 2) late_clock
     = Inr [''chunk-b'', ''chunk-c'']"
  by (simp add: get_memories_to_forget_def batch_three Let_def sorted_memories_of_def
      retain_count_of_def py_int_def fmul_exact faded_def)

lemma two_accessed_eq:
  "two_accessed =
     \<lparr>namespace = ''chunk'', hash_ids = [''chunk-a'', ''chunk-b'', ''chunk-c''],
      texts = [''a'', ''b'', ''c''],
      embeddings = [NdArray [1, 1], NdArray [1, 1], NdArray [1, 1]],
      hash_id_to_idx = [''chunk-a'' \<mapsto> 0, ''chunk-b'' \<mapsto> 1, ''chunk-c'' \<mapsto> 2],
      hash_id_to_row = [''chunk-a'' \<mapsto> (''chunk-a'', ''a''), ''chunk-b'' \<mapsto> (''chunk-b'', ''b''),
                        ''chunk-c'' \<mapsto> (''chunk-c'', ''c'')],
      hash_id_to_text = Some [''chunk-a'' \<mapsto> ''a'', ''chunk-b'' \<mapsto> ''b'', ''chunk-c'' \<mapsto> ''c''],
      text_to_hash_id = Some [''a'' \<mapsto> ''chunk-a'', ''b'' \<mapsto> ''chunk-b'', ''c'' \<mapsto> ''chunk-c''],
      access_history = [''chunk-a'' \<mapsto> [late_event], ''chunk-b'' \<mapsto> [late_event]],
      parquet_file = Some ([''chunk-a'', ''chunk-b'', ''chunk-c''], [''a'', ''b'', ''c''],
                           [NdArray [1, 1], NdArray [1, 1], NdArray [1, 1]]),
      access_history_file = Some Map.empty\<rparr>"
  by (simp add: two_accessed_def store_eval record_access_def late_event_def fun_upd_twist
        numeral_2_eq_2)

lemma unseen_score:
  "calculate_activation_score exact_floats default_manager h [] (NdArray [1, - 1]) (NdArray [1, 1])
     None 95040000 = Inr (unseen h)"
  by (simp add: calculate_activation_score_def Let_def default_manager_def
      cosine_similarity_def exact_floats_def exact_norm_def exact_dot_def unseen_def)

lemma batch_two:
  "calculate_batch_activation exact_floats default_manager two_accessed (NdArray [1, - 1]) late_clock
     = Inr [(''chunk-a'', faded ''chunk-a''), (''chunk-b'', faded ''chunk-b''),
            (''chunk-c'', unseen ''chunk-c'')]"
  by (simp add: calculate_batch_activation_def get_all_ids_def two_accessed_eq get_embedding_def
      get_access_history_def late_clock_def faded_score unseen_score)

lemma forget_two:
  "get_memories_to_forget exact_floats default_manager two_accessed (NdArray [1, - 1]) (1 / 2) late_clock
     = Inr [''chunk-b'']"
  by (simp add: get_memories_to_forget_def batch_two Let_def sorted_memories_of_def
      retain_count_of_def py_int_def fmul_exact faded_def unseen_def)

text \<open>
  C3. Every identifier that \<open>get_memories_to_forget\<close> returns has a score in the batch
  whose \<open>should_retain\<close> is false: its total activation is below 0.05 and the store holds
  at least one access event for it. A record that was never accessed is therefore never
  returned.
\<close>

theorem forget_only_unretained:
  assumes "get_memories_to_forget fp self store q ratio clock = Inr to_forget"
    and "h \<in> set to_forget"
  shows "\<exists>all_scores scores.
           calculate_batch_activation fp self store q clock = Inr all_scores \<and>
           map_of all_scores h = Some scores \<and>
           \<not> should_retain scores \<and>
           total_activation scores < 5 / 100 \<and>
           get_access_history store h \<noteq> []"
proof -
  from assms(1) obtain all_scores where
    b: "calculate_batch_activation fp self store q clock = Inr all_scores"
    by (auto simp: get_memories_to_forget_def split: sum.splits)
  from forget_members[OF b assms(1)] assms(2) obtain sc where
    mem: "(h, sc) \<in> set (sorted_memories_of all_scores)" and nr: "\<not> should_retain sc"
    by (auto dest: in_set_dropD)
  then have in_all: "(h, sc) \<in> set all_scores" by (simp add: sorted_memories_of_def)
  have dist: "distinct (map fst all_scores)"
    using b unfolding calculate_batch_activation_def by (rule batch_loop_keys) simp
  have look: "map_of all_scores h = Some sc" using dist in_all by simp
  from batch_loop_scores[OF b[unfolded calculate_batch_activation_def] in_all]
  obtain j me where
    "calculate_activation_score fp self h (get_access_history store h) q me None (clock j) = Inr sc"
    by auto
  from score_retain[OF this] nr have "total_activation sc < 5 / 100" "get_access_history store h \<noteq> []"
    by auto
  with b look nr show ?thesis by blast
qed

theorem forget_only_unretained_witness:
  "get_memories_to_forget exact_floats default_manager two_accessed (NdArray [1, - 1]) (1 / 2) late_clock
     = Inr [''chunk-b''] \<and>
   ''chunk-b'' \<in> set [''chunk-b''] \<and>
   calculate_batch_activation exact_floats default_manager two_accessed (NdArray [1, - 1]) late_clock
     = Inr [(''chunk-a'', faded ''chunk-a''), (''chunk-b'', faded ''chunk-b''),
            (''chunk-c'', unseen ''chunk-c'')] \<and>
   \<not> should_retain (faded ''chunk-b'') \<and>
   get_access_history two_accessed ''chunk-b'' \<noteq> [] \<and>
   get_access_history two_accessed ''chunk-c'' = [] \<and>
   should_retain (unseen ''chunk-c'') \<and>
   ''chunk-c'' \<notin> set [''chunk-b'']"
proof -
  have m: "''chunk-b'' \<in> set [''chunk-b'']" by simp
  from forget_only_unretained [OF forget_two m]
  have "get_access_history two_accessed ''chunk-b'' \<noteq> []" by blast
  moreover have "get_access_history two_accessed ''chunk-c'' = []"
    by (simp add: get_access_history_def two_accessed_eq)
  ultimately show ?thesis
    using forget_two batch_two by (simp add: faded_def unseen_def)
qed

text \<open>
  C2, as the code has it. For a retention ratio above 0, \<open>get_memories_to_forget\<close> ranks
  the scored records by total activation in descending order and keeps the first
  \<open>max(1, floor(total_count * retention_ratio))\<close> of the ranking, the product being the
  one the code's multiplication gives: every identifier it
  returns lies below them in the ranking, none of the kept ones is returned, and it returns
  at most \<open>total_count - max(1, floor(total_count * retention_ratio))\<close> identifiers, none
  when that difference is negative.
\<close>

theorem forget_within_quota:
  assumes "calculate_batch_activation fp self store q clock = Inr all_scores"
    and "get_memories_to_forget fp self store q ratio clock = Inr to_forget"
    and "0 < ratio"
  shows "set (sorted_memories_of all_scores) = set all_scores \<and>
         length (sorted_memories_of all_scores) = length all_scores \<and>
         sorted_wrt (\<lambda>x y. total_activation (snd x) \<ge> total_activation (snd y))
           (sorted_memories_of all_scores) \<and>
         set to_forget \<subseteq>
           fst ` set (drop (nat (max 1 \<lfloor>fmul fp (real (length all_scores)) ratio\<rfloor>))
                        (sorted_memories_of all_scores)) \<and>
         set to_forget \<inter>
           fst ` set (take (nat (max 1 \<lfloor>fmul fp (real (length all_scores)) ratio\<rfloor>))
                        (sorted_memories_of all_scores)) = {} \<and>
         int (length to_forget)
           \<le> max 0 (int (length all_scores) - max 1 \<lfloor>fmul fp (real (length all_scores)) ratio\<rfloor>)"
proof -
  let ?k = "nat (max 1 \<lfloor>fmul fp (real (length all_scores)) ratio\<rfloor>)"
  let ?r = "sorted_memories_of all_scores"
  have tf: "to_forget = map fst (filter (\<lambda>x. should_retain (snd x) = False) (drop ?k ?r))"
    using forget_members[OF assms(1,2)] retain_count_floor by simp
  have dist: "distinct (map fst ?r)"
    by (rule sorted_memories_keys, rule batch_loop_keys[OF assms(1)[unfolded calculate_batch_activation_def]]) simp
  have sub: "set to_forget \<subseteq> fst ` set (drop ?k ?r)"
    unfolding tf by auto
  have disj: "set to_forget \<inter> fst ` set (take ?k ?r) = {}"
    using sub take_drop_keys_disjoint[OF dist, of ?k] by auto
  have "length (filter (\<lambda>x. should_retain (snd x) = False) (drop ?k ?r)) \<le> length (drop ?k ?r)"
    by (rule length_filter_le)
  then have "length to_forget \<le> length all_scores - ?k"
    unfolding tf by (simp add: sorted_memories_length)
  then have len: "int (length to_forget)
      \<le> max 0 (int (length all_scores) - max 1 \<lfloor>fmul fp (real (length all_scores)) ratio\<rfloor>)"
    by linarith
  show ?thesis
    using sorted_memories_set sorted_memories_length sorted_memories_descending sub disj len
    by blast
qed

theorem forget_within_quota_witness:
  "calculate_batch_activation exact_floats default_manager three_accessed (NdArray [1, - 1]) late_clock
     = Inr [(''chunk-a'', faded ''chunk-a''), (''chunk-b'', faded ''chunk-b''),
            (''chunk-c'', faded ''chunk-c'')] \<and>
   get_memories_to_forget exact_floats default_manager three_accessed (NdArray [1, - 1]) (1 / 2) late_clock
     = Inr [''chunk-b'', ''chunk-c''] \<and>
   (0::real) < 1 / 2 \<and>
   int (length [''chunk-b'', ''chunk-c''])
     \<le> max 0 (int (length [(''chunk-a'', faded ''chunk-a''), (''chunk-b'', faded ''chunk-b''),
                              (''chunk-c'', faded ''chunk-c'')])
               - max 1 \<lfloor>fmul exact_floats
                          (real (length [(''chunk-a'', faded ''chunk-a''), (''chunk-b'', faded ''chunk-b''),
                                         (''chunk-c'', faded ''chunk-c'')])) (1 / 2)\<rfloor>)"
proof -
  have r: "(0::real) < 1 / 2" by simp
  from forget_within_quota [OF batch_three forget_three r]
  have "int (length [''chunk-b'', ''chunk-c''])
     \<le> max 0 (int (length [(''chunk-a'', faded ''chunk-a''), (''chunk-b'', faded ''chunk-b''),
                              (''chunk-c'', faded ''chunk-c'')])
               - max 1 \<lfloor>fmul exact_floats
                          (real (length [(''chunk-a'', faded ''chunk-a''), (''chunk-b'', faded ''chunk-b''),
                                         (''chunk-c'', faded ''chunk-c'')])) (1 / 2)\<rfloor>)"
    by blast
  with batch_three forget_three r show ?thesis by blast
qed

text \<open>
  The claim as the specification states it fails: \<open>int()\<close> rounds the product down, not
  up. With three records and the ratio 0.5 the code keeps one record and returns two
  identifiers, more than \<open>3 - ceil(1.5) = 1\<close>.
\<close>

theorem forget_exceeds_ceiling_counterexample:
  "get_memories_to_forget exact_floats default_manager three_accessed (NdArray [1, - 1]) (1 / 2) late_clock
     = Inr [''chunk-b'', ''chunk-c''] \<and>
   length (get_all_ids three_accessed) = 3 \<and>
   int (length [''chunk-b'', ''chunk-c'']) > 3 - \<lceil>(3::real) * (1 / 2)\<rceil>"
proof -
  have "\<lceil>(3::real) * (1 / 2)\<rceil> = 2" by (simp add: ceiling_eq_iff)
  then show ?thesis
    using forget_three by (simp add: get_all_ids_def three_accessed_eq)
qed

end
